theory Spec2Isabelle
  imports Complex_Main
begin

section \<open>Communication manager (flockwave/server/comm.py)\<close>

text \<open>
  Shallow embedding of the communication manager. Python objects whose identity is
  compared with \<open>is\<close> are modelled by values whose equality is that identity: a channel
  object is its class together with a serial number, so two distinct values are two
  distinct objects and \<open>isinstance(channel, BroadcastMessageChannel)\<close> is a test on the
  constructor. Only subclasses of \<open>Exception\<close> are modelled as exception values;
  cancellation (a \<open>BaseException\<close>) is outside the model.
\<close>

subsection \<open>Data model\<close>

datatype ErrorAction = SKIP_LOGGING | LOG_AND_SUSPEND | LOG

datatype channel = MessageChannel nat | BroadcastMessageChannel nat

type_synonym connection = nat

record CommunicationManagerEntry =
  connection :: connection
  name :: string
  can_broadcast :: bool
  can_send :: bool
  channel :: "channel option"
  error_count :: int

text \<open>\<open>CommunicationManagerEntry(connection, name=name, can_send=...)\<close> with the
  dataclass defaults for the remaining fields.\<close>

definition new_entry :: "connection \<Rightarrow> string \<Rightarrow> bool \<Rightarrow> CommunicationManagerEntry" where
  "new_entry c n cs =
     \<lparr>connection = c, name = n, can_broadcast = False, can_send = cs,
      channel = None, error_count = 0\<rparr>"

text \<open>\<open>isinstance(channel, BroadcastMessageChannel)\<close> on an optional channel.\<close>

fun isinstance_BroadcastMessageChannel :: "channel option \<Rightarrow> bool" where
  "isinstance_BroadcastMessageChannel None = False"
| "isinstance_BroadcastMessageChannel (Some (MessageChannel _)) = False"
| "isinstance_BroadcastMessageChannel (Some (BroadcastMessageChannel _)) = True"

subsection \<open>Operations of an entry\<close>

definition notify_error ::
  "int \<Rightarrow> CommunicationManagerEntry \<Rightarrow> ErrorAction \<times> CommunicationManagerEntry" where
  "notify_error limit e =
     (let e' = e\<lparr>error_count := error_count e + 1\<rparr>
      in if error_count e' > limit then (SKIP_LOGGING, e')
         else if error_count e' = limit then (LOG_AND_SUSPEND, e')
         else (LOG, e'))"

definition reset_error_count ::
  "CommunicationManagerEntry \<Rightarrow> bool \<times> CommunicationManagerEntry" where
  "reset_error_count e =
     (if error_count e > 0 then (True, e\<lparr>error_count := 0\<rparr>) else (False, e))"

definition set_channel ::
  "channel option \<Rightarrow> CommunicationManagerEntry \<Rightarrow> CommunicationManagerEntry" where
  "set_channel ch e =
     (if channel e \<noteq> ch
      then e\<lparr>channel := ch,
             can_broadcast := isinstance_BroadcastMessageChannel ch,
             error_count := 0\<rparr>
      else e)"

definition detach_channel :: "CommunicationManagerEntry \<Rightarrow> CommunicationManagerEntry" where
  "detach_channel e = set_channel None e"

definition is_open :: "CommunicationManagerEntry \<Rightarrow> bool" where
  "is_open e = (channel e \<noteq> None)"

text \<open>A run of \<open>n\<close> consecutive \<open>notify_error\<close> calls on one entry: the actions returned,
  in call order, and the entry afterwards.\<close>

fun notify_errors ::
  "nat \<Rightarrow> int \<Rightarrow> CommunicationManagerEntry \<Rightarrow> ErrorAction list \<times> CommunicationManagerEntry" where
  "notify_errors 0 limit e = ([], e)"
| "notify_errors (Suc n) limit e =
     (let (a, e1) = notify_error limit e;
          (as, e2) = notify_errors n limit e1
      in (a # as, e2))"

text \<open>The action the specification assigns to the call that brings the count to \<open>k\<close>.\<close>

definition action_for_count :: "int \<Rightarrow> int \<Rightarrow> ErrorAction" where
  "action_for_count limit k =
     (if k < limit then LOG else if k = limit then LOG_AND_SUSPEND else SKIP_LOGGING)"

text \<open>The mutators of an entry, and their application in sequence.\<close>

datatype entry_op = SetChannel "channel option" | DetachChannel | NotifyError int | ResetErrorCount

fun apply_entry_op :: "entry_op \<Rightarrow> CommunicationManagerEntry \<Rightarrow> CommunicationManagerEntry" where
  "apply_entry_op (SetChannel ch) e = set_channel ch e"
| "apply_entry_op DetachChannel e = detach_channel e"
| "apply_entry_op (NotifyError limit) e = snd (notify_error limit e)"
| "apply_entry_op ResetErrorCount e = snd (reset_error_count e)"

fun apply_entry_ops :: "entry_op list \<Rightarrow> CommunicationManagerEntry \<Rightarrow> CommunicationManagerEntry" where
  "apply_entry_ops [] e = e"
| "apply_entry_ops (x # xs) e = apply_entry_ops xs (apply_entry_op x e)"

definition entry_invariant :: "CommunicationManagerEntry \<Rightarrow> bool" where
  "entry_invariant e = (can_broadcast e \<longrightarrow> channel e \<noteq> None)"

subsection \<open>Exceptions, results, log records\<close>

text \<open>The subclasses of \<open>Exception\<close> that the module raises or tests for, and any other one.
  \<open>OSError\<close> carries its \<open>errno\<close> attribute, which may be \<open>None\<close>.\<close>

datatype exn =
    RuntimeError string
  | KeyError string
  | BrokenResourceError string
  | ClosedResourceError string
  | OSError "int option"
  | AttributeError string
  | AssertionError
  | OtherException string

fun is_OSError :: "exn \<Rightarrow> bool" where
  "is_OSError (OSError _) = True"
| "is_OSError _ = False"

text \<open>The outcome of a call that mutates a store: it returns a value, or raises. The store
  is kept in both cases, because what was mutated before a raise stays mutated.\<close>

datatype ('v, 's) result = Return 'v 's | Raise exn 's

text \<open>\<open>try: r  except Exception as ex: h\<close>.\<close>

definition try_except ::
  "('v, 's) result \<Rightarrow> (exn \<Rightarrow> 's \<Rightarrow> ('v, 's) result) \<Rightarrow> ('v, 's) result" where
  "try_except r h = (case r of Return v s \<Rightarrow> Return v s | Raise ex s \<Rightarrow> h ex s)"

datatype log_level = INFO | WARNING | ERROR

text \<open>A call of the logger: \<open>extra_id\<close> is \<open>extra["id"]\<close>, \<open>telemetry_ignore\<close> says that
  \<open>extra["telemetry"] == "ignore"\<close>, and \<open>exc_info\<close> that the record carries the exception
  with its stack trace, which is what \<open>Logger.exception\<close> adds to \<open>Logger.error\<close>.\<close>

record log_record =
  level :: log_level
  message :: string
  extra_id :: string
  telemetry_ignore :: bool
  exc_info :: bool

datatype 'a address = BROADCAST | Address 'a

text \<open>An item of the outbound queue is a packet with \<open>BROADCAST\<close> itself or with a pair
  of a channel name and an address.\<close>

datatype 'a destination = ToEveryone | ToChannel string "'a address"

text \<open>The calls made on channels: \<open>channel.send((message, address))\<close> and
  \<open>channel.broadcast((message, BROADCAST))\<close>.\<close>

datatype ('p, 'a) tx_event = Send_call channel 'p 'a | Broadcast_call channel 'p

subsection \<open>Decimal numerals and string helpers\<close>

fun str_nat :: "nat \<Rightarrow> string" where
  "str_nat n =
     (if n < 10 then [''0123456789'' ! n]
      else str_nat (n div 10) @ [''0123456789'' ! (n mod 10)])"

declare str_nat.simps [simp del]

definition str_int :: "int \<Rightarrow> string" where
  "str_int i = (if i < 0 then CHR ''-'' # str_nat (nat (- i)) else str_nat (nat i))"

text \<open>\<open>f"{name}[{index}]"\<close>.\<close>

definition format_id :: "string \<Rightarrow> nat \<Rightarrow> string" where
  "format_id n index = n @ ''['' @ str_nat index @ '']''"

subsection \<open>What the module takes from outside\<close>

text \<open>
  The collaborators of the manager, as parameters:
  \<^item> \<open>tx_outcome\<close>: what a call on a channel does, given all calls made on channels so far
    with the present one last: \<open>None\<close> when it returns, or the exception it raises;
  \<^item> \<open>repr_address\<close>: \<open>repr(address)\<close>, which runs the address's own method and may raise;
  \<^item> \<open>repr_str\<close>: the builtin \<open>repr\<close> on a string, as \<open>{alias!r}\<close> formats it;
  \<^item> \<open>connection_can_send\<close>: \<open>get_connection_capabilities(connection)["can_send"]\<close>;
  \<^item> the constants and the \<open>errorcode\<close> table of the \<open>errno\<close> module of the platform.
\<close>

record ('p, 'a) world =
  tx_outcome :: "('p, 'a) tx_event list \<Rightarrow> exn option"
  repr_address :: "'a \<Rightarrow> exn + string"
  repr_str :: "string \<Rightarrow> string"
  connection_can_send :: "connection \<Rightarrow> bool"
  EADDRNOTAVAIL :: int
  EHOSTDOWN :: int
  EHOSTUNREACH :: int
  ENETDOWN :: int
  ENETUNREACH :: int
  errorcode :: "int \<rightharpoonup> string"

definition WSAENETDOWN :: int where "WSAENETDOWN = 10050"
definition WSAENETUNREACH :: int where "WSAENETUNREACH = 10051"
definition WSAEHOSTDOWN :: int where "WSAEHOSTDOWN = 10064"
definition WSAEHOSTUNREACH :: int where "WSAEHOSTUNREACH = 10065"

subsection \<open>The manager\<close>

text \<open>
  \<open>entries_by_name\<close> is a dictionary whose order of insertion is observable (the broadcast
  to all channels iterates over it), hence an association list; \<open>error_counters\<close> is a
  \<open>defaultdict(int)\<close>, a total function with 0 for a name never stored. The logger is the
  list of the records it received, \<open>transmitted\<close> the calls made on channels, \<open>slept\<close> the
  arguments of the calls of \<open>sleep\<close>. The outbound queue holds at most 256 items.
\<close>

record ('p, 'a) CommunicationManager =
  format_address :: "'a \<Rightarrow> exn + string"
  broadcast_delay :: real
  error_limit :: int
  aliases :: "string \<rightharpoonup> string list"
  entries_by_name :: "(string \<times> CommunicationManagerEntry list) list"
  error_counters :: "string \<Rightarrow> int"
  running :: bool
  outbound_tx_queue :: "('p \<times> 'a destination) list option"
  logged :: "log_record list"
  transmitted :: "('p, 'a) tx_event list"
  slept :: "real list"

definition init :: "('a \<Rightarrow> exn + string) \<Rightarrow> ('p, 'a) CommunicationManager" where
  "init fmt =
     \<lparr>format_address = fmt, broadcast_delay = 0, error_limit = 5,
      aliases = Map.empty, entries_by_name = [], error_counters = (\<lambda>_. 0),
      running = False, outbound_tx_queue = None,
      logged = [], transmitted = [], slept = []\<rparr>"

definition log_call ::
  "log_level \<Rightarrow> bool \<Rightarrow> string \<Rightarrow> string \<Rightarrow> bool \<Rightarrow>
   ('p, 'a) CommunicationManager \<Rightarrow> ('p, 'a) CommunicationManager" where
  "log_call lv exc msg ident ignore m =
     m\<lparr>logged := logged m @
         [\<lparr>level = lv, message = msg, extra_id = ident,
           telemetry_ignore = ignore, exc_info = exc\<rparr>]\<rparr>"

text \<open>\<open>self._entries_by_name[name].append(entry)\<close> on a \<open>defaultdict(list)\<close>.\<close>

fun append_entry ::
  "string \<Rightarrow> CommunicationManagerEntry \<Rightarrow> (string \<times> CommunicationManagerEntry list) list \<Rightarrow>
   (string \<times> CommunicationManagerEntry list) list" where
  "append_entry n e [] = [(n, [e])]"
| "append_entry n e ((k, es) # rest) =
     (if k = n then (k, es @ [e]) # rest else (k, es) # append_entry n e rest)"

text \<open>The entries are objects mutated in place; the model writes the list of the entries of
  a name back after a loop over it.\<close>

fun store_entries ::
  "string \<Rightarrow> CommunicationManagerEntry list \<Rightarrow> (string \<times> CommunicationManagerEntry list) list \<Rightarrow>
   (string \<times> CommunicationManagerEntry list) list" where
  "store_entries n es' [] = []"
| "store_entries n es' ((k, es) # rest) =
     (if k = n then (k, es') # rest else (k, es) # store_entries n es' rest)"

definition add ::
  "('p, 'a) world \<Rightarrow> connection \<Rightarrow> string \<Rightarrow> bool option \<Rightarrow>
   ('p, 'a) CommunicationManager \<Rightarrow> (unit, ('p, 'a) CommunicationManager) result" where
  "add w conn n cs m =
     (if running m
      then Raise (RuntimeError ''cannot add new connections when the manager is running'') m
      else
        let cs' = (case cs of None \<Rightarrow> connection_can_send w conn | Some b \<Rightarrow> b)
        in Return ()
             (m\<lparr>entries_by_name := append_entry n (new_entry conn n cs') (entries_by_name m)\<rparr>))"



subsection \<open>Submitting packets\<close>

text \<open>A call that may have to wait: it completes, or raises, or stays suspended (the
  outbound queue is full and the caller waits for room).\<close>

datatype 's blocking = Completed 's | Raised exn 's | Suspended 's

text \<open>\<open>await queue.send(item)\<close> on the memory channel of capacity 256.\<close>

definition queue_send ::
  "('p \<times> 'a destination) \<Rightarrow> ('p \<times> 'a destination) list \<Rightarrow>
   ('p, 'a) CommunicationManager \<Rightarrow> ('p, 'a) CommunicationManager blocking" where
  "queue_send item queue m =
     (if length queue < 256
      then Completed (m\<lparr>outbound_tx_queue := Some (queue @ [item])\<rparr>)
      else Suspended m)"

definition broadcast_packet ::
  "'p \<Rightarrow> string option \<Rightarrow> bool \<Rightarrow>
   ('p, 'a) CommunicationManager \<Rightarrow> ('p, 'a) CommunicationManager blocking" where
  "broadcast_packet packet dest allow_failure m =
     (case outbound_tx_queue m of
        None \<Rightarrow>
          if \<not> allow_failure
          then Raised (BrokenResourceError ''Outbound message queue is closed'') m
          else Completed m
      | Some queue \<Rightarrow>
          let address = (case dest of None \<Rightarrow> ToEveryone | Some d \<Rightarrow> ToChannel d BROADCAST)
          in queue_send (packet, address) queue m)"

definition send_packet ::
  "'p \<Rightarrow> string \<times> 'a address \<Rightarrow>
   ('p, 'a) CommunicationManager \<Rightarrow> ('p, 'a) CommunicationManager blocking" where
  "send_packet packet dest m =
     (case outbound_tx_queue m of
        None \<Rightarrow> Raised (BrokenResourceError ''Outbound message queue is closed'') m
      | Some queue \<Rightarrow> queue_send (packet, ToChannel (fst dest) (snd dest)) queue m)"

text \<open>The blocking submission as the specification words it, with the flag that tolerates
  failure: used only to compare the two operations with it.\<close>

definition spec_blocking_submit ::
  "bool \<Rightarrow> ('p \<times> 'a destination) \<Rightarrow>
   ('p, 'a) CommunicationManager \<Rightarrow> ('p, 'a) CommunicationManager blocking" where
  "spec_blocking_submit tolerate item m =
     (case outbound_tx_queue m of
        None \<Rightarrow>
          if tolerate then Completed m
          else Raised (BrokenResourceError ''Outbound message queue is closed'') m
      | Some queue \<Rightarrow> queue_send item queue m)"

subsection \<open>Calls on channels\<close>

definition channel_call ::
  "('p, 'a) world \<Rightarrow> ('p, 'a) tx_event \<Rightarrow>
   ('p, 'a) CommunicationManager \<Rightarrow> (unit, ('p, 'a) CommunicationManager) result" where
  "channel_call w ev m =
     (let m' = m\<lparr>transmitted := transmitted m @ [ev]\<rparr>
      in case tx_outcome w (transmitted m') of
           None \<Rightarrow> Return () m'
         | Some ex \<Rightarrow> Raise ex m')"

text \<open>\<open>cast(BroadcastMessageChannel, channel).broadcast((message, BROADCAST))\<close>: the cast
  checks nothing, and only a \<open>BroadcastMessageChannel\<close> has the method.\<close>

fun channel_broadcast ::
  "('p, 'a) world \<Rightarrow> channel option \<Rightarrow> 'p \<Rightarrow>
   ('p, 'a) CommunicationManager \<Rightarrow> (unit, ('p, 'a) CommunicationManager) result" where
  "channel_broadcast w None msg m = Raise (AttributeError ''broadcast'') m"
| "channel_broadcast w (Some (MessageChannel i)) msg m = Raise (AttributeError ''broadcast'') m"
| "channel_broadcast w (Some (BroadcastMessageChannel i)) msg m =
     channel_call w (Broadcast_call (BroadcastMessageChannel i) msg) m"

text \<open>\<open>assert channel is not None\<close>, then \<open>channel.send((message, address))\<close>.\<close>

fun channel_send ::
  "('p, 'a) world \<Rightarrow> channel option \<Rightarrow> 'p \<Rightarrow> 'a \<Rightarrow>
   ('p, 'a) CommunicationManager \<Rightarrow> (unit, ('p, 'a) CommunicationManager) result" where
  "channel_send w None msg a m = Raise AssertionError m"
| "channel_send w (Some c) msg a m = channel_call w (Send_call c msg a) m"

subsection \<open>Broadcast to all channels\<close>

fun broadcast_to_entries ::
  "('p, 'a) world \<Rightarrow> 'p \<Rightarrow> CommunicationManagerEntry list \<Rightarrow>
   ('p, 'a) CommunicationManager \<Rightarrow> (unit, ('p, 'a) CommunicationManager) result" where
  "broadcast_to_entries w msg [] m = Return () m"
| "broadcast_to_entries w msg (entry # rest) m =
     (if \<not> can_broadcast entry then broadcast_to_entries w msg rest m
      else
        case try_except (channel_broadcast w (channel entry) msg m) (\<lambda>ex m'. Return () m') of
          Raise ex m' \<Rightarrow> Raise ex m'
        | Return _ m' \<Rightarrow> broadcast_to_entries w msg rest m')"

fun broadcast_to_names ::
  "('p, 'a) world \<Rightarrow> 'p \<Rightarrow> (string \<times> CommunicationManagerEntry list) list \<Rightarrow>
   ('p, 'a) CommunicationManager \<Rightarrow> (unit, ('p, 'a) CommunicationManager) result" where
  "broadcast_to_names w msg [] m = Return () m"
| "broadcast_to_names w msg ((n, entries) # rest) m =
     (case broadcast_to_entries w msg entries m of
        Raise ex m' \<Rightarrow> Raise ex m'
      | Return _ m' \<Rightarrow> broadcast_to_names w msg rest m')"

definition send_message_to_all_channels ::
  "('p, 'a) world \<Rightarrow> 'p \<Rightarrow>
   ('p, 'a) CommunicationManager \<Rightarrow> (unit, ('p, 'a) CommunicationManager) result" where
  "send_message_to_all_channels w msg m = broadcast_to_names w msg (entries_by_name m) m"

text \<open>\<open>_iter_entries\<close>: every entry, name after name in the order of the dictionary.\<close>

definition iter_entries :: "('p, 'a) CommunicationManager \<Rightarrow> CommunicationManagerEntry list" where
  "iter_entries m = concat (map snd (entries_by_name m))"

subsection \<open>Handling a transmission error\<close>

definition log_os_error_during_tx ::
  "('p, 'a) world \<Rightarrow> int option \<Rightarrow> string \<Rightarrow> string \<Rightarrow>
   ('p, 'a) CommunicationManager \<Rightarrow> ('p, 'a) CommunicationManager" where
  "log_os_error_during_tx w errno formatted_address formatted_id m =
     (let formatted_error_code =
            (case errno of
               None \<Rightarrow> ''code missing''
             | Some n \<Rightarrow> (case errorcode w n of Some s \<Rightarrow> s | None \<Rightarrow> str_int n));
          prefix = (if formatted_address \<noteq> [] then formatted_address @ '': '' else [])
      in
        if errno \<in> Some ` {ENETDOWN w, ENETUNREACH w, EADDRNOTAVAIL w, WSAENETDOWN, WSAENETUNREACH}
        then log_call ERROR False
               (prefix @ ''Network is down or unreachable ('' @ formatted_error_code @ '')'')
               formatted_id True m
        else if errno \<in> Some ` {EHOSTDOWN w, EHOSTUNREACH w, WSAEHOSTDOWN, WSAEHOSTUNREACH}
        then log_call ERROR False
               (prefix @ ''Host is down or unreachable ('' @ formatted_error_code @ '')'')
               formatted_id True m
        else log_call ERROR True
               (prefix @ ''Error while sending message ('' @ formatted_error_code @ '')'')
               formatted_id False m)"

text \<open>The address as it goes into the log: empty for a broadcast, else
  \<open>format_address(address)\<close>, and \<open>repr(address)\<close> when that raises.\<close>

definition formatted_address_of ::
  "('p, 'a) world \<Rightarrow> ('p, 'a) CommunicationManager \<Rightarrow> 'a address \<Rightarrow> exn + string" where
  "formatted_address_of w m address =
     (case address of
        BROADCAST \<Rightarrow> Inr []
      | Address a \<Rightarrow> (case format_address m a of Inr s \<Rightarrow> Inr s | Inl _ \<Rightarrow> repr_address w a))"

definition handle_tx_error ::
  "('p, 'a) world \<Rightarrow> exn \<Rightarrow> 'a address \<Rightarrow> nat \<Rightarrow>
   CommunicationManagerEntry \<times> ('p, 'a) CommunicationManager \<Rightarrow>
   (unit, CommunicationManagerEntry \<times> ('p, 'a) CommunicationManager) result" where
  "handle_tx_error w ex address index s =
     (let (entry, m) = s;
          (action, entry1) = notify_error (error_limit m) entry
      in
        if action = SKIP_LOGGING then Return () (entry1, m)
        else
          let formatted_id = format_id (name entry1) index
          in case formatted_address_of w m address of
               Inl ex2 \<Rightarrow> Raise ex2 (entry1, m)
             | Inr formatted_address \<Rightarrow>
                 let m1 = (case ex of
                             OSError errno \<Rightarrow>
                               log_os_error_during_tx w errno formatted_address formatted_id m
                           | BrokenResourceError _ \<Rightarrow>
                               log_call ERROR False ''Channel is broken'' formatted_id False m
                           | _ \<Rightarrow>
                               log_call ERROR False ''Error while sending message''
                                 formatted_id False m);
                     m2 = (if action = LOG_AND_SUSPEND
                           then log_call WARNING False
                                  ''Error reporting suspended until the connection recovers''
                                  formatted_id True m1
                           else m1);
                     m3 = (if \<not> is_OSError ex
                           then log_call ERROR True ''Error while sending message''
                                  (format_id (name entry1) index) False m2
                           else m2)
                 in Return () (entry1, m3))"

subsection \<open>Sending to the channels of one name\<close>

text \<open>The statements after a transmission inside the \<open>try\<close>: \<open>if sent:\<close> with the reset of
  the error count of the entry and the log record "resumed".\<close>

definition after_send ::
  "string \<Rightarrow> nat \<Rightarrow> bool \<Rightarrow>
   CommunicationManagerEntry \<times> ('p, 'a) CommunicationManager \<Rightarrow>
   (bool, CommunicationManagerEntry \<times> ('p, 'a) CommunicationManager) result" where
  "after_send nm index sent s =
     (let (entry, m) = s
      in if sent
         then
           let (was_nonzero, entry1) = reset_error_count entry
           in if was_nonzero
              then Return sent
                     (entry1, log_call INFO False ''Channel resumed normal operation''
                                (format_id nm index) False m)
              else Return sent (entry1, m)
         else Return sent (entry, m))"

text \<open>The body of the \<open>try\<close>; its value is the variable \<open>sent\<close>.\<close>

definition try_send ::
  "('p, 'a) world \<Rightarrow> 'p \<Rightarrow> string \<Rightarrow> 'a address \<Rightarrow> nat \<Rightarrow> bool \<Rightarrow>
   CommunicationManagerEntry \<times> ('p, 'a) CommunicationManager \<Rightarrow>
   (bool, CommunicationManagerEntry \<times> ('p, 'a) CommunicationManager) result" where
  "try_send w msg nm address index sent s =
     (let (entry, m) = s
      in case address of
           BROADCAST \<Rightarrow>
             if can_broadcast entry
             then
               (case channel_broadcast w (channel entry) msg m of
                  Raise ex m1 \<Rightarrow> Raise ex (entry, m1)
                | Return _ m1 \<Rightarrow>
                    let m2 = (if broadcast_delay m1 > 0
                              then m1\<lparr>slept := slept m1 @ [broadcast_delay m1]\<rparr>
                              else m1)
                    in after_send nm index True (entry, m2))
             else after_send nm index sent (entry, m)
         | Address a \<Rightarrow>
             (case channel_send w (channel entry) msg a m of
                Raise ex m1 \<Rightarrow> Raise ex (entry, m1)
              | Return _ m1 \<Rightarrow> after_send nm index True (entry, m1)))"

text \<open>The handler \<open>except Exception as ex\<close>, with its own \<open>try\<close> around the classifier.\<close>

definition on_tx_exception ::
  "('p, 'a) world \<Rightarrow> string \<Rightarrow> 'a address \<Rightarrow> nat \<Rightarrow> bool \<Rightarrow> exn \<Rightarrow>
   CommunicationManagerEntry \<times> ('p, 'a) CommunicationManager \<Rightarrow>
   (bool, CommunicationManagerEntry \<times> ('p, 'a) CommunicationManager) result" where
  "on_tx_exception w nm address index sent ex s =
     (case handle_tx_error w ex address index s of
        Return _ s1 \<Rightarrow> Return sent s1
      | Raise ex2 s1 \<Rightarrow>
          Return sent
            (fst s1,
             log_call ERROR True ''Error while handling error during message transmission''
               (format_id nm index) False (snd s1)))"

text \<open>One iteration of \<open>for index, entry in enumerate(entries)\<close>.\<close>

definition visit_entry ::
  "('p, 'a) world \<Rightarrow> 'p \<Rightarrow> string \<Rightarrow> 'a address \<Rightarrow> nat \<Rightarrow> bool \<Rightarrow>
   CommunicationManagerEntry \<times> ('p, 'a) CommunicationManager \<Rightarrow>
   (bool, CommunicationManagerEntry \<times> ('p, 'a) CommunicationManager) result" where
  "visit_entry w msg nm address index sent s =
     (if is_open (fst s) \<and> can_send (fst s)
      then try_except (try_send w msg nm address index sent s)
             (on_tx_exception w nm address index sent)
      else Return sent s)"

text \<open>The loop. Its store is the list of the entries, as mutated so far, with the manager.\<close>

fun send_to_entries ::
  "('p, 'a) world \<Rightarrow> 'p \<Rightarrow> string \<Rightarrow> 'a address \<Rightarrow> nat \<Rightarrow> bool \<Rightarrow>
   CommunicationManagerEntry list \<times> ('p, 'a) CommunicationManager \<Rightarrow>
   (bool, CommunicationManagerEntry list \<times> ('p, 'a) CommunicationManager) result" where
  "send_to_entries w msg nm address index sent ([], m) = Return sent ([], m)"
| "send_to_entries w msg nm address index sent (entry # rest, m) =
     (case visit_entry w msg nm address index sent (entry, m) of
        Raise ex (entry1, m1) \<Rightarrow> Raise ex (entry1 # rest, m1)
      | Return sent1 (entry1, m1) \<Rightarrow>
          (case send_to_entries w msg nm address (Suc index) sent1 (rest, m1) of
             Raise ex (rest2, m2) \<Rightarrow> Raise ex (entry1 # rest2, m2)
           | Return sent2 (rest2, m2) \<Rightarrow> Return sent2 (entry1 # rest2, m2)))"

text \<open>Truth value of the result of \<open>dict.get\<close> on a dictionary of lists: \<open>None\<close> and the
  empty list are false.\<close>

fun truthy :: "'x list option \<Rightarrow> bool" where
  "truthy None = False"
| "truthy (Some []) = False"
| "truthy (Some (x # xs)) = True"

definition with_entries ::
  "string \<Rightarrow> CommunicationManagerEntry list \<Rightarrow>
   ('p, 'a) CommunicationManager \<Rightarrow> ('p, 'a) CommunicationManager" where
  "with_entries nm es m = m\<lparr>entries_by_name := store_entries nm es (entries_by_name m)\<rparr>"

text \<open>Lines 611 to 669: the loop over the entries found under \<open>nm\<close>, then the counter of
  consecutive failures of \<open>nm\<close> and the warning.\<close>

definition send_to_resolved ::
  "('p, 'a) world \<Rightarrow> 'p \<Rightarrow> string \<Rightarrow> 'a address \<Rightarrow> CommunicationManagerEntry list option \<Rightarrow>
   ('p, 'a) CommunicationManager \<Rightarrow> (unit, ('p, 'a) CommunicationManager) result" where
  "send_to_resolved w msg nm address entries m =
     (let is_broadcast = (address = BROADCAST);
          looped = (case entries of
                      Some (e # es) \<Rightarrow>
                        (case send_to_entries w msg nm address 0 False (e # es, m) of
                           Raise ex (es1, m1) \<Rightarrow> Raise ex (with_entries nm es1 m1)
                         | Return sent (es1, m1) \<Rightarrow> Return sent (with_entries nm es1 m1))
                    | _ \<Rightarrow> Return False m)
      in case looped of
           Raise ex m1 \<Rightarrow> Raise ex m1
         | Return sent m1 \<Rightarrow>
             if sent
             then Return () (m1\<lparr>error_counters := (error_counters m1)(nm := 0)\<rparr>)
             else
               let m2 = m1\<lparr>error_counters :=
                            (error_counters m1)(nm := error_counters m1 nm + 1)\<rparr>;
                   error_counter = error_counters m2 nm
               in if \<not> is_broadcast \<and> error_counter \<le> error_limit m2
                  then
                    if truthy entries
                    then Return ()
                           (log_call WARNING False
                              ''Dropping outbound message, sending failed on all channels''
                              nm True m2)
                    else Return ()
                           (log_call WARNING False
                              ''Dropping outbound message, no suitable channel''
                              nm True m2)
                  else Return () m2)"

text \<open>\<open>for target in targets: if target in self._entries_by_name: await ...\<close>, with the
  recursive call as the parameter \<open>f\<close>. \<open>None\<close> is a recursion that did not end within the
  depth allowed.\<close>

fun for_each_target ::
  "(string \<Rightarrow> ('p, 'a) CommunicationManager \<Rightarrow>
      (unit, ('p, 'a) CommunicationManager) result option) \<Rightarrow>
   string list \<Rightarrow> ('p, 'a) CommunicationManager \<Rightarrow>
   (unit, ('p, 'a) CommunicationManager) result option" where
  "for_each_target f [] m = Some (Return () m)"
| "for_each_target f (target # rest) m =
     (if map_of (entries_by_name m) target \<noteq> None
      then
        (case f target m of
           None \<Rightarrow> None
         | Some (Raise ex m1) \<Rightarrow> Some (Raise ex m1)
         | Some (Return _ m1) \<Rightarrow> for_each_target f rest m1)
      else for_each_target f rest m)"

text \<open>The first argument bounds the depth of the recursion.\<close>

primrec send_message_to_single_channel ::
  "nat \<Rightarrow> ('p, 'a) world \<Rightarrow> 'p \<Rightarrow> string \<times> 'a address \<Rightarrow>
   ('p, 'a) CommunicationManager \<Rightarrow> (unit, ('p, 'a) CommunicationManager) result option" where
  "send_message_to_single_channel 0 w msg dest m = None"
| "send_message_to_single_channel (Suc depth) w msg dest m =
     (let nm = fst dest; address = snd dest;
          entries = map_of (entries_by_name m) nm
      in if \<not> truthy entries
         then
           (let targets = aliases m nm
            in if \<not> truthy targets then Some (Return () m)
               else if length (the targets) = 1
               then
                 (let nm1 = hd (the targets)
                  in Some (send_to_resolved w msg nm1 address
                             (map_of (entries_by_name m) nm1) m))
               else
                 for_each_target
                   (\<lambda>target. send_message_to_single_channel depth w msg (target, address))
                   (the targets) m)
         else Some (send_to_resolved w msg nm address entries m))"

declare send_message_to_single_channel.simps [simp del]

text \<open>One turn of the loop of \<open>_run_outbound_links_inner\<close>.\<close>

definition dispatch ::
  "nat \<Rightarrow> ('p, 'a) world \<Rightarrow> 'p \<times> 'a destination \<Rightarrow>
   ('p, 'a) CommunicationManager \<Rightarrow> (unit, ('p, 'a) CommunicationManager) result option" where
  "dispatch depth w item m =
     (case snd item of
        ToEveryone \<Rightarrow> Some (send_message_to_all_channels w (fst item) m)
      | ToChannel nm address \<Rightarrow> send_message_to_single_channel depth w (fst item) (nm, address) m)"

text \<open>The registry as \<open>add\<close> builds it: no name twice, no name with an empty list.\<close>

definition registry_wf :: "(string \<times> CommunicationManagerEntry list) list \<Rightarrow> bool" where
  "registry_wf reg = (distinct (map fst reg) \<and> (\<forall>p \<in> set reg. snd p \<noteq> []))"

subsection \<open>The calls a dispatch is expected to make\<close>

text \<open>The calls of \<open>broadcast\<close> that the loop over all channels makes on a list of entries:
  one on each entry with \<open>can_broadcast\<close> whose channel has the method.\<close>

definition broadcast_calls ::
  "'p \<Rightarrow> CommunicationManagerEntry list \<Rightarrow> ('p, 'a) tx_event list" where
  "broadcast_calls msg es =
     concat (map (\<lambda>e. if can_broadcast e
                       then (case channel e of
                               Some (BroadcastMessageChannel i) \<Rightarrow>
                                 [Broadcast_call (BroadcastMessageChannel i) msg]
                             | _ \<Rightarrow> [])
                       else []) es)"

text \<open>The call that the loop over the entries of one name makes on an entry, if any:
  none on an entry that is closed or cannot send; \<open>send\<close> for a proper address; for the
  address \<open>BROADCAST\<close>, \<open>broadcast\<close> if the entry has \<open>can_broadcast\<close> (and its channel
  the method), and nothing otherwise.\<close>

definition calls_on ::
  "'p \<Rightarrow> 'a address \<Rightarrow> CommunicationManagerEntry \<Rightarrow> ('p, 'a) tx_event list" where
  "calls_on msg address e =
     (case channel e of
        None \<Rightarrow> []
      | Some c \<Rightarrow>
          if \<not> can_send e then []
          else (case address of
                  Address a \<Rightarrow> [Send_call c msg a]
                | BROADCAST \<Rightarrow>
                    if can_broadcast e
                    then (case c of
                            BroadcastMessageChannel i \<Rightarrow> [Broadcast_call c msg]
                          | MessageChannel i \<Rightarrow> [])
                    else []))"

text \<open>A name resolves to the entries \<open>es\<close> registered under \<open>r\<close>: it has these entries
  itself (\<open>r\<close> is the name), or it has none and an alias with the one target \<open>r\<close>, which has
  them (lines 594 to 602).\<close>

definition resolves_to ::
  "('p, 'a) CommunicationManager \<Rightarrow> string \<Rightarrow> string \<Rightarrow> CommunicationManagerEntry list \<Rightarrow> bool" where
  "resolves_to m nm r es =
     (es \<noteq> [] \<and> map_of (entries_by_name m) r = Some es
      \<and> (r = nm
          \<or> (\<not> truthy (map_of (entries_by_name m) nm) \<and> aliases m nm = Some [r])))"

text \<open>The entries registered under a name, none for a name that is not a key.\<close>

definition entries_of ::
  "('p, 'a) CommunicationManager \<Rightarrow> string \<Rightarrow> CommunicationManagerEntry list" where
  "entries_of m nm = (case map_of (entries_by_name m) nm of None \<Rightarrow> [] | Some es \<Rightarrow> es)"

text \<open>The store in which a call ends, whether it returns or raises.\<close>

fun store_of :: "('v, 's) result \<Rightarrow> 's" where
  "store_of (Return v s) = s"
| "store_of (Raise ex s) = s"

text \<open>Two entries that differ at most in the error count, and two managers that differ
  at most in what was logged, transmitted and slept.\<close>

definition same_shape :: "CommunicationManagerEntry \<Rightarrow> CommunicationManagerEntry \<Rightarrow> bool" where
  "same_shape e e' = (e'\<lparr>error_count := 0\<rparr> = e\<lparr>error_count := 0\<rparr>)"

definition same_setup ::
  "('p, 'a) CommunicationManager \<Rightarrow> ('p, 'a) CommunicationManager \<Rightarrow> bool" where
  "same_setup m m' =
     (m'\<lparr>logged := [], transmitted := [], slept := []\<rparr>
        = m\<lparr>logged := [], transmitted := [], slept := []\<rparr>)"

text \<open>Two managers with the same names registered and, under each name, entries that
  differ at most in the error count.\<close>

definition same_registry ::
  "('p, 'a) CommunicationManager \<Rightarrow> ('p, 'a) CommunicationManager \<Rightarrow> bool" where
  "same_registry m m' =
     (\<forall>k. rel_option (list_all2 same_shape)
            (map_of (entries_by_name m) k) (map_of (entries_by_name m') k))"

subsection \<open>Example inputs\<close>

text \<open>\<open>repr\<close> of a string of ASCII characters: between single quotes, or between double
  quotes when the string has a single quote and no double quote; the quote used and the
  backslash are escaped with a backslash, tab, line feed and carriage return are written
  with a backslash and the letter \<open>t\<close>, \<open>n\<close> or \<open>r\<close>, and any other control character
  with a backslash, the letter \<open>x\<close> and two hexadecimal digits.\<close>

definition hex2 :: "nat \<Rightarrow> string" where
  "hex2 n = [''0123456789abcdef'' ! ((n div 16) mod 16), ''0123456789abcdef'' ! (n mod 16)]"

definition repr_char :: "char \<Rightarrow> char \<Rightarrow> string" where
  "repr_char quote c =
     (if c = quote \<or> c = CHR 0x5C then [CHR 0x5C, c]
      else if c = CHR 0x09 then [CHR 0x5C, CHR ''t'']
      else if c = CHR 0x0A then [CHR 0x5C, CHR ''n'']
      else if c = CHR 0x0D then [CHR 0x5C, CHR ''r'']
      else if (of_char c :: nat) < 32 \<or> (of_char c :: nat) = 127
      then [CHR 0x5C, CHR ''x''] @ hex2 (of_char c)
      else [c])"

definition repr_ascii :: "string \<Rightarrow> string" where
  "repr_ascii s =
     (let quote = (if CHR 0x27 \<in> set s \<and> CHR 0x22 \<notin> set s then CHR 0x22 else CHR 0x27)
      in [quote] @ concat (map (repr_char quote) s) @ [quote])"

text \<open>A platform with the error numbers of Linux, on which every call on a channel
  returns, and the same platform on which the first call made on any channel raises
  "network unreachable" and the later ones return.\<close>

definition example_world :: "(string, nat) world" where
  "example_world =
     \<lparr>tx_outcome = (\<lambda>calls. None), repr_address = (\<lambda>a. Inr (str_nat a)),
      repr_str = repr_ascii, connection_can_send = (\<lambda>c. True),
      EADDRNOTAVAIL = 99, EHOSTDOWN = 112, EHOSTUNREACH = 113, ENETDOWN = 100,
      ENETUNREACH = 101, errorcode = [101 \<mapsto> ''ENETUNREACH'']\<rparr>"

definition flaky_world :: "(string, nat) world" where
  "flaky_world =
     example_world\<lparr>tx_outcome :=
       (\<lambda>calls. if length calls = 1 then Some (OSError (Some 101)) else None)\<rparr>"

definition empty_manager :: "(string, nat) CommunicationManager" where
  "empty_manager = init (\<lambda>a. Inr (str_nat a))"

text \<open>Two entries under the name \<open>A\<close>, open on a channel that can broadcast and on one
  that cannot, and one entry under \<open>B\<close>, open on a channel that cannot broadcast.\<close>

definition entry_A0 :: CommunicationManagerEntry where
  "entry_A0 = set_channel (Some (BroadcastMessageChannel 1)) (new_entry 1 ''A'' True)"

definition entry_A1 :: CommunicationManagerEntry where
  "entry_A1 = set_channel (Some (MessageChannel 3)) (new_entry 3 ''A'' True)"

definition entry_B0 :: CommunicationManagerEntry where
  "entry_B0 = set_channel (Some (MessageChannel 2)) (new_entry 2 ''B'' True)"

definition example_manager :: "(string, nat) CommunicationManager" where
  "example_manager =
     empty_manager\<lparr>entries_by_name := [(''A'', [entry_A0, entry_A1]), (''B'', [entry_B0])]\<rparr>"

text \<open>The log records of the examples.\<close>

definition no_suitable_channel :: "string \<Rightarrow> log_record" where
  "no_suitable_channel nm =
     \<lparr>level = WARNING, message = ''Dropping outbound message, no suitable channel'',
      extra_id = nm, telemetry_ignore = True, exc_info = False\<rparr>"

section \<open>Properties\<close>

subsection \<open>The error counter of an entry\<close>

lemma notify_errors_from:
  "fst (notify_errors n limit e) = map (\<lambda>k. action_for_count limit (error_count e + int k)) [1..<Suc n]
   \<and> snd (notify_errors n limit e) = e\<lparr>error_count := error_count e + int n\<rparr>"
proof (induction n arbitrary: e)
  case 0
  show ?case by simp
next
  case (Suc n)
  let ?e1 = "e\<lparr>error_count := error_count e + 1\<rparr>"
  have step: "notify_error limit e = (action_for_count limit (error_count e + 1), ?e1)"
    by (simp add: notify_error_def action_for_count_def Let_def)
  have shift: "map (\<lambda>k. action_for_count limit (error_count ?e1 + int k)) [1..<Suc n]
      = map (\<lambda>k. action_for_count limit (error_count e + int k)) [2..<Suc (Suc n)]"
  proof -
    have "[2..<Suc (Suc n)] = map Suc [1..<Suc n]"
      by (metis Suc_1 map_Suc_upt)
    then have "map (\<lambda>k. action_for_count limit (error_count e + int k)) [2..<Suc (Suc n)]
       = map ((\<lambda>k. action_for_count limit (error_count e + int k)) \<circ> Suc) [1..<Suc n]"
      by (simp only: map_map)
    moreover have "(\<lambda>k. action_for_count limit (error_count e + int k)) \<circ> Suc
       = (\<lambda>k. action_for_count limit (error_count ?e1 + int k))"
      by (rule ext) (simp add: add.assoc add.left_commute add.commute)
    ultimately show ?thesis by (simp only:)
  qed
  have split: "[1..<Suc (Suc n)] = 1 # [2..<Suc (Suc n)]"
    using upt_conv_Cons [of 1 "Suc (Suc n)"] by (simp del: upt_Suc add: numeral_2_eq_2)
  have ih1: "fst (notify_errors n limit ?e1)
       = map (\<lambda>k. action_for_count limit (error_count e + int k)) [2..<Suc (Suc n)]"
    using Suc.IH [of ?e1] shift by (simp only:)
  have ih2: "snd (notify_errors n limit ?e1) = e\<lparr>error_count := error_count e + int (Suc n)\<rparr>"
    using Suc.IH [of ?e1] by (simp add: add.assoc)
  have unfold: "notify_errors (Suc n) limit e
      = (action_for_count limit (error_count e + 1) # fst (notify_errors n limit ?e1),
         snd (notify_errors n limit ?e1))"
    using step by (simp add: split_beta)
  have "map (\<lambda>k. action_for_count limit (error_count e + int k)) [1..<Suc (Suc n)]
      = action_for_count limit (error_count e + 1)
        # map (\<lambda>k. action_for_count limit (error_count e + int k)) [2..<Suc (Suc n)]"
    by (subst split) simp
  then show ?case
    using ih1 ih2 unfold by (simp only: fst_conv snd_conv simp_thms)
qed

lemma count_suspend:
  "0 < limit \<Longrightarrow>
   count_list (map (\<lambda>k. action_for_count limit (int k)) [1..<Suc n]) LOG_AND_SUSPEND
     = (if limit \<le> int n then 1 else 0)"
proof (induction n)
  case 0
  then show ?case by simp
next
  case (Suc n)
  have "[1..<Suc (Suc n)] = [1..<Suc n] @ [Suc n]" by simp
  then show ?case using Suc
    by (auto simp add: action_for_count_def simp del: upt_Suc)
qed

text \<open>
  Claim C2. Starting from an error count of 0 and with a positive limit, the \<open>k\<close>-th of
  \<open>n\<close> consecutive calls of \<open>notify_error\<close> returns \<open>LOG\<close> when \<open>k < limit\<close>,
  \<open>LOG_AND_SUSPEND\<close> when \<open>k = limit\<close> and \<open>SKIP_LOGGING\<close> when \<open>k > limit\<close>, so that
  \<open>LOG_AND_SUSPEND\<close> is returned exactly once if the count reaches the limit and never
  otherwise; the count is then \<open>n\<close>. \<open>reset_error_count\<close> after these calls returns
  whether \<open>n\<close> is not zero and leaves the count at 0, and the next \<open>notify_error\<close>
  brings the count to 1.
\<close>

theorem notify_error_sequence:
  assumes "0 < limit" and "error_count e = 0"
  shows "fst (notify_errors n limit e) = map (\<lambda>k. action_for_count limit (int k)) [1..<Suc n]
    \<and> count_list (fst (notify_errors n limit e)) LOG_AND_SUSPEND = (if limit \<le> int n then 1 else 0)
    \<and> snd (notify_errors n limit e) = e\<lparr>error_count := int n\<rparr>
    \<and> reset_error_count (snd (notify_errors n limit e)) = (n \<noteq> 0, e)
    \<and> snd (notify_error limit (snd (reset_error_count (snd (notify_errors n limit e)))))
        = e\<lparr>error_count := 1\<rparr>"
proof -
  have a: "fst (notify_errors n limit e) = map (\<lambda>k. action_for_count limit (int k)) [1..<Suc n]"
    and b: "snd (notify_errors n limit e) = e\<lparr>error_count := int n\<rparr>"
    using notify_errors_from [of n limit e] assms(2) by simp_all
  have c: "reset_error_count (e\<lparr>error_count := int n\<rparr>) = (n \<noteq> 0, e)"
    using assms(2) by (cases "n = 0") (auto simp add: reset_error_count_def)
  have d: "snd (notify_error limit e) = e\<lparr>error_count := 1\<rparr>"
    using assms(2) by (simp add: notify_error_def Let_def)
  show ?thesis
    using a b c d count_suspend [OF assms(1), of n] by simp
qed

theorem notify_error_sequence_witness:
  "(0::int) < 2 \<and> error_count (new_entry 1 ''A'' True) = 0
   \<and> fst (notify_errors 3 2 (new_entry 1 ''A'' True)) = [LOG, LOG_AND_SUSPEND, SKIP_LOGGING]
   \<and> reset_error_count (snd (notify_errors 3 2 (new_entry 1 ''A'' True)))
       = (True, new_entry 1 ''A'' True)"
proof -
  have h1: "(0::int) < 2" by simp
  have h2: "error_count (new_entry 1 ''A'' True) = 0" by (simp add: new_entry_def)
  have acts: "map (\<lambda>k. action_for_count 2 (int k)) [1..<Suc 3]
      = [LOG, LOG_AND_SUSPEND, SKIP_LOGGING]"
    by code_simp
  note t = notify_error_sequence [OF h1 h2, of 3]
  have a: "fst (notify_errors 3 2 (new_entry 1 ''A'' True))
      = map (\<lambda>k. action_for_count 2 (int k)) [1..<Suc 3]"
    using t by blast
  have r: "reset_error_count (snd (notify_errors 3 2 (new_entry 1 ''A'' True)))
      = ((3::nat) \<noteq> 0, new_entry 1 ''A'' True)"
    using t by blast
  show ?thesis
    using a r acts h1 h2 by simp
qed

subsection \<open>The channel of an entry\<close>

text \<open>
  Claim C7. \<open>set_channel\<close> with a channel other than the present one stores it, sets
  \<open>can_broadcast\<close> to whether the new channel is a \<open>BroadcastMessageChannel\<close>, and sets
  the error count to 0, leaving the connection, the name and \<open>can_send\<close> alone;
  \<open>set_channel\<close> with the present channel changes nothing in the entry.
\<close>

theorem set_channel_effect:
  "(channel e \<noteq> ch \<longrightarrow>
      channel (set_channel ch e) = ch
      \<and> can_broadcast (set_channel ch e) = (\<exists>i. ch = Some (BroadcastMessageChannel i))
      \<and> error_count (set_channel ch e) = 0
      \<and> connection (set_channel ch e) = connection e
      \<and> name (set_channel ch e) = name e
      \<and> can_send (set_channel ch e) = can_send e)
   \<and> (channel e = ch \<longrightarrow> set_channel ch e = e)"
proof -
  have "isinstance_BroadcastMessageChannel ch = (\<exists>i. ch = Some (BroadcastMessageChannel i))"
    by (cases ch rule: isinstance_BroadcastMessageChannel.cases) simp_all
  then show ?thesis by (simp add: set_channel_def)
qed

theorem set_channel_effect_witness:
  "channel (new_entry 1 ''A'' True) \<noteq> Some (BroadcastMessageChannel 7)
   \<and> can_broadcast (set_channel (Some (BroadcastMessageChannel 7)) (new_entry 1 ''A'' True))
   \<and> channel (set_channel (Some (BroadcastMessageChannel 7)) (new_entry 1 ''A'' True))
        = Some (BroadcastMessageChannel 7)
   \<and> channel (new_entry 1 ''A'' True) = None
   \<and> set_channel None (new_entry 1 ''A'' True) = new_entry 1 ''A'' True"
  using set_channel_effect [of "new_entry 1 ''A'' True" "Some (BroadcastMessageChannel 7)"]
    set_channel_effect [of "new_entry 1 ''A'' True" None]
  by (simp add: new_entry_def)

lemma cache_step:
  "can_broadcast e = isinstance_BroadcastMessageChannel (channel e) \<Longrightarrow>
   can_broadcast (apply_entry_op x e) = isinstance_BroadcastMessageChannel (channel (apply_entry_op x e))"
  by (cases x)
     (simp_all add: set_channel_def detach_channel_def notify_error_def reset_error_count_def Let_def)

lemma cache_ops:
  "can_broadcast e = isinstance_BroadcastMessageChannel (channel e) \<Longrightarrow>
   can_broadcast (apply_entry_ops xs e) = isinstance_BroadcastMessageChannel (channel (apply_entry_ops xs e))"
  by (induction xs arbitrary: e) (simp_all add: cache_step)

lemma isinstance_channel_broadcast:
  "isinstance_BroadcastMessageChannel ch \<Longrightarrow>
   \<exists>i. ch = Some (BroadcastMessageChannel i)
     \<and> channel_broadcast w ch msg m = channel_call w (Broadcast_call (BroadcastMessageChannel i) msg) m"
  by (cases ch rule: isinstance_BroadcastMessageChannel.cases) simp_all

text \<open>
  Claim C10. An entry created by the manager and then changed only by its own mutators
  (\<open>set_channel\<close>, \<open>detach_channel\<close>, and also \<open>notify_error\<close> and
  \<open>reset_error_count\<close>), in any number and order, has a channel whenever
  \<open>can_broadcast\<close> is set; more precisely \<open>can_broadcast\<close> is the cached test that the
  channel is a \<open>BroadcastMessageChannel\<close>. Hence on such an entry with \<open>can_broadcast\<close>
  set, the call of \<open>broadcast\<close> made by the loop over all channels is a call on a channel
  which has the method, never a failed attribute access.
\<close>

theorem can_broadcast_implies_channel:
  "entry_invariant (apply_entry_ops xs (new_entry c n cs))
   \<and> can_broadcast (apply_entry_ops xs (new_entry c n cs))
       = isinstance_BroadcastMessageChannel (channel (apply_entry_ops xs (new_entry c n cs)))
   \<and> (can_broadcast (apply_entry_ops xs (new_entry c n cs)) \<longrightarrow>
        (\<exists>i. channel (apply_entry_ops xs (new_entry c n cs)) = Some (BroadcastMessageChannel i)
           \<and> channel_broadcast w (channel (apply_entry_ops xs (new_entry c n cs))) msg m
               = channel_call w (Broadcast_call (BroadcastMessageChannel i) msg) m))"
proof -
  let ?e = "apply_entry_ops xs (new_entry c n cs)"
  have cache: "can_broadcast ?e = isinstance_BroadcastMessageChannel (channel ?e)"
    by (rule cache_ops) (simp add: new_entry_def)
  have inv: "entry_invariant ?e"
    unfolding entry_invariant_def using cache by (cases "channel ?e") simp_all
  show ?thesis
    using cache inv isinstance_channel_broadcast [of "channel ?e" w msg m] by blast
qed

theorem can_broadcast_implies_channel_witness:
  "can_broadcast (apply_entry_ops [SetChannel (Some (BroadcastMessageChannel 3)), NotifyError 5]
      (new_entry 1 ''A'' True))
   \<and> channel (apply_entry_ops [SetChannel (Some (BroadcastMessageChannel 3)), NotifyError 5]
      (new_entry 1 ''A'' True)) \<noteq> None
   \<and> \<not> can_broadcast (apply_entry_ops
        [SetChannel (Some (BroadcastMessageChannel 3)), DetachChannel] (new_entry 1 ''A'' True))
   \<and> entry_invariant (apply_entry_ops
        [SetChannel (Some (BroadcastMessageChannel 3)), DetachChannel] (new_entry 1 ''A'' True))"
  using can_broadcast_implies_channel
          [of "[SetChannel (Some (BroadcastMessageChannel 3)), NotifyError 5]" 1 "''A''" True]
        can_broadcast_implies_channel
          [of "[SetChannel (Some (BroadcastMessageChannel 3)), DetachChannel]" 1 "''A''" True]
  by (simp add: new_entry_def set_channel_def detach_channel_def notify_error_def Let_def
        entry_invariant_def)

subsection \<open>Submission while the outbound queue is closed\<close>

text \<open>
  Against claim C4 as stated. \<open>send_packet\<close> has no parameter that tolerates failure: on a
  manager that is not running it raises, where the blocking submission of the
  specification with the flag set completes without effect.
\<close>

theorem send_packet_ignores_tolerance:
  "send_packet ''pkt'' (''A'', Address (1::nat)) (init (\<lambda>a. Inr (str_nat a)))
     = Raised (BrokenResourceError ''Outbound message queue is closed'') (init (\<lambda>a. Inr (str_nat a)))
   \<and> spec_blocking_submit True (''pkt'', ToChannel ''A'' (Address (1::nat))) (init (\<lambda>a. Inr (str_nat a)))
     = Completed (init (\<lambda>a. Inr (str_nat a)))
   \<and> send_packet ''pkt'' (''A'', Address (1::nat)) (init (\<lambda>a. Inr (str_nat a)))
     \<noteq> spec_blocking_submit True (''pkt'', ToChannel ''A'' (Address 1)) (init (\<lambda>a. Inr (str_nat a)))"
  by (simp add: send_packet_def spec_blocking_submit_def init_def)

text \<open>
  Claim C4, amended. While the outbound queue is absent, \<open>send_packet\<close> always raises
  \<open>BrokenResourceError\<close> ("Outbound message queue is closed"); \<open>broadcast_packet\<close> raises
  the same error when \<open>allow_failure\<close> is false and returns without any effect when it is
  true.
\<close>

theorem blocking_submission_when_closed:
  "outbound_tx_queue m = None \<Longrightarrow>
     send_packet packet dest m
       = Raised (BrokenResourceError ''Outbound message queue is closed'') m
     \<and> broadcast_packet packet target False m
       = Raised (BrokenResourceError ''Outbound message queue is closed'') m
     \<and> broadcast_packet packet target True m = Completed m"
  by (simp add: send_packet_def broadcast_packet_def)

theorem blocking_submission_when_closed_witness:
  "outbound_tx_queue (init (\<lambda>a::nat. Inr (str_nat a)) :: (string, nat) CommunicationManager) = None
   \<and> broadcast_packet ''pkt'' None True (init (\<lambda>a::nat. Inr (str_nat a)))
       = Completed (init (\<lambda>a::nat. Inr (str_nat a)))
   \<and> send_packet ''pkt'' (''A'', Address 1) (init (\<lambda>a::nat. Inr (str_nat a)))
       = Raised (BrokenResourceError ''Outbound message queue is closed'')
           (init (\<lambda>a::nat. Inr (str_nat a)))"
proof -
  have h: "outbound_tx_queue (init (\<lambda>a::nat. Inr (str_nat a)) :: (string, nat) CommunicationManager) = None"
    by (simp add: init_def)
  show ?thesis
    using blocking_submission_when_closed [OF h, of "''pkt''" "(''A'', Address 1)" None] h
    by simp
qed

subsection \<open>Aliases\<close>



subsection \<open>Broadcast to all channels\<close>

lemma broadcast_swallowed:
  "try_except (channel_broadcast w ch msg m) (\<lambda>ex m'. Return () m')
     = Return () (m\<lparr>transmitted := transmitted m @
          (case ch of Some (BroadcastMessageChannel i) \<Rightarrow> [Broadcast_call (BroadcastMessageChannel i) msg]
                    | _ \<Rightarrow> [])\<rparr>)"
  by (cases ch rule: isinstance_BroadcastMessageChannel.cases)
     (simp_all add: try_except_def channel_call_def Let_def split: option.splits)

lemma broadcast_to_entries_result:
  "broadcast_to_entries w msg es m
     = Return () (m\<lparr>transmitted := transmitted m @ broadcast_calls msg es\<rparr>)"
proof (induction es arbitrary: m)
  case Nil
  show ?case by (simp add: broadcast_calls_def)
next
  case (Cons e es)
  show ?case
  proof (cases "can_broadcast e")
    case False
    then show ?thesis using Cons.IH [of m] by (simp add: broadcast_calls_def)
  next
    case True
    then show ?thesis
      by (simp add: broadcast_swallowed Cons.IH broadcast_calls_def)
  qed
qed

lemma broadcast_to_names_result:
  "broadcast_to_names w msg reg m
     = Return () (m\<lparr>transmitted := transmitted m @ broadcast_calls msg (concat (map snd reg))\<rparr>)"
proof (induction reg arbitrary: m)
  case Nil
  show ?case by (simp add: broadcast_calls_def)
next
  case (Cons p reg)
  obtain n es where p: "p = (n, es)" by (cases p)
  show ?case
    by (simp add: p broadcast_to_entries_result Cons.IH broadcast_calls_def)
qed

lemma broadcast_calls_filter:
  "\<forall>e \<in> set es. can_broadcast e \<longrightarrow> isinstance_BroadcastMessageChannel (channel e) \<Longrightarrow>
   (broadcast_calls msg es :: ('p, 'a) tx_event list)
     = map (\<lambda>e. Broadcast_call (the (channel e)) msg) (filter can_broadcast es)"
proof (induction es)
  case Nil
  show ?case by (simp add: broadcast_calls_def)
next
  case (Cons e es)
  have tail: "(broadcast_calls msg es :: ('p, 'a) tx_event list)
      = map (\<lambda>e. Broadcast_call (the (channel e)) msg) (filter can_broadcast es)"
    using Cons by simp
  have step: "(broadcast_calls msg (e # es) :: ('p, 'a) tx_event list)
      = (if can_broadcast e
         then (case channel e of
                 Some (BroadcastMessageChannel i) \<Rightarrow> [Broadcast_call (BroadcastMessageChannel i) msg]
               | _ \<Rightarrow> [])
         else []) @ broadcast_calls msg es"
    by (simp add: broadcast_calls_def)
  show ?case
  proof (cases "can_broadcast e")
    case False
    then show ?thesis using step tail by simp
  next
    case True
    then have "isinstance_BroadcastMessageChannel (channel e)" using Cons.prems by simp
    then obtain i where "channel e = Some (BroadcastMessageChannel i)"
      by (cases "channel e" rule: isinstance_BroadcastMessageChannel.cases) simp_all
    then show ?thesis using True step tail by simp
  qed
qed

text \<open>
  Claim C8. Dispatching a packet to everyone, whatever the calls on the channels do,
  returns without raising and changes nothing in the manager but the record of the calls
  made (no error count, no counter of failures, no log record): the calls are one
  \<open>broadcast((packet, BROADCAST))\<close> per entry with \<open>can_broadcast\<close>, over all names in the
  order of the registry, and none on an entry without \<open>can_broadcast\<close>. This is so for
  entries on which \<open>can_broadcast\<close> implies a channel with the method, as it does on the
  entries the manager creates; an entry with the flag and no such channel fails before
  any call and the failure is swallowed too.
\<close>

theorem broadcast_to_everyone:
  "send_message_to_all_channels w msg (m :: ('p, 'a) CommunicationManager)
     = Return () (m\<lparr>transmitted := transmitted m @ broadcast_calls msg (iter_entries m)\<rparr>)
   \<and> dispatch depth w (msg, ToEveryone) m
     = Some (Return () (m\<lparr>transmitted := transmitted m @ broadcast_calls msg (iter_entries m)\<rparr>))
   \<and> ((\<forall>e \<in> set (iter_entries m). can_broadcast e \<longrightarrow> isinstance_BroadcastMessageChannel (channel e))
        \<longrightarrow> (broadcast_calls msg (iter_entries m) :: ('p, 'a) tx_event list)
            = map (\<lambda>e. Broadcast_call (the (channel e)) msg) (filter can_broadcast (iter_entries m)))"
  using broadcast_calls_filter [of "iter_entries m" msg, where ?'a = 'a]
  by (simp add: send_message_to_all_channels_def dispatch_def broadcast_to_names_result iter_entries_def)

theorem broadcast_to_everyone_witness:
  "send_message_to_all_channels flaky_world ''pkt'' example_manager
       = Return () (example_manager\<lparr>transmitted := [Broadcast_call (BroadcastMessageChannel 1) ''pkt'']\<rparr>)
   \<and> map (\<lambda>e. Broadcast_call (the (channel e)) ''pkt'' :: (string, nat) tx_event)
        (filter can_broadcast (iter_entries example_manager))
       = [Broadcast_call (BroadcastMessageChannel 1) ''pkt'']"
proof -
  have h: "\<forall>e \<in> set (iter_entries example_manager).
      can_broadcast e \<longrightarrow> isinstance_BroadcastMessageChannel (channel e)"
    by (simp add: iter_entries_def example_manager_def entry_A0_def entry_A1_def entry_B0_def
          set_channel_def new_entry_def)
  have calls: "(broadcast_calls ''pkt'' (iter_entries example_manager) :: (string, nat) tx_event list)
      = [Broadcast_call (BroadcastMessageChannel 1) ''pkt'']"
    by (simp add: broadcast_calls_def iter_entries_def example_manager_def entry_A0_def
          entry_A1_def entry_B0_def set_channel_def new_entry_def)
  have tx0: "transmitted example_manager = []"
    by (simp add: example_manager_def empty_manager_def init_def)
  show ?thesis
    using broadcast_to_everyone [of flaky_world "''pkt''" example_manager 0] h calls tx0
    by simp
qed

subsection \<open>What a dispatch leaves unchanged\<close>

lemma same_setup_refl [simp]: "same_setup m m"
  by (simp add: same_setup_def)

lemma same_setup_trans: "same_setup m m1 \<Longrightarrow> same_setup m1 m2 \<Longrightarrow> same_setup m m2"
  by (simp add: same_setup_def)

lemma same_setup_effects [simp]:
  "same_setup m (m'\<lparr>logged := l\<rparr>) = same_setup m m'"
  "same_setup m (m'\<lparr>transmitted := t\<rparr>) = same_setup m m'"
  "same_setup m (m'\<lparr>slept := s\<rparr>) = same_setup m m'"
  "same_setup (m\<lparr>logged := l\<rparr>) m' = same_setup m m'"
  "same_setup (m\<lparr>transmitted := t\<rparr>) m' = same_setup m m'"
  "same_setup (m\<lparr>slept := s\<rparr>) m' = same_setup m m'"
  by (simp_all add: same_setup_def)

lemma same_setup_fields:
  assumes "same_setup m m'"
  shows "entries_by_name m' = entries_by_name m \<and> aliases m' = aliases m
     \<and> error_counters m' = error_counters m \<and> error_limit m' = error_limit m
     \<and> broadcast_delay m' = broadcast_delay m \<and> format_address m' = format_address m
     \<and> running m' = running m \<and> outbound_tx_queue m' = outbound_tx_queue m"
proof -
  have eq: "m'\<lparr>logged := [], transmitted := [], slept := []\<rparr>
      = m\<lparr>logged := [], transmitted := [], slept := []\<rparr>"
    using assms by (simp add: same_setup_def)
  show ?thesis
    using arg_cong [OF eq, of entries_by_name] arg_cong [OF eq, of aliases]
      arg_cong [OF eq, of error_counters] arg_cong [OF eq, of error_limit]
      arg_cong [OF eq, of broadcast_delay] arg_cong [OF eq, of format_address]
      arg_cong [OF eq, of running] arg_cong [OF eq, of outbound_tx_queue]
    by simp
qed

lemma same_shape_refl [simp]: "same_shape e e"
  by (simp add: same_shape_def)

lemma same_shape_trans: "same_shape e e1 \<Longrightarrow> same_shape e1 e2 \<Longrightarrow> same_shape e e2"
  by (simp add: same_shape_def)

lemma same_shape_count [simp]: "same_shape e (e'\<lparr>error_count := k\<rparr>) = same_shape e e'"
  by (simp add: same_shape_def)

lemma log_call_frame [simp]:
  "same_setup m (log_call lv exc msg ident ignore m') = same_setup m m'"
  "transmitted (log_call lv exc msg ident ignore m') = transmitted m'"
  "slept (log_call lv exc msg ident ignore m') = slept m'"
  "error_limit (log_call lv exc msg ident ignore m') = error_limit m'"
  by (simp_all add: log_call_def)

lemma log_os_error_frame [simp]:
  "same_setup m (log_os_error_during_tx w errno fa fid m') = same_setup m m'"
  "transmitted (log_os_error_during_tx w errno fa fid m') = transmitted m'"
  "slept (log_os_error_during_tx w errno fa fid m') = slept m'"
  by (simp_all add: log_os_error_during_tx_def Let_def)

lemma handle_tx_error_store:
  "fst (store_of (handle_tx_error w ex address index (e, m))) = e\<lparr>error_count := error_count e + 1\<rparr>
   \<and> same_setup m (snd (store_of (handle_tx_error w ex address index (e, m))))
   \<and> transmitted (snd (store_of (handle_tx_error w ex address index (e, m)))) = transmitted m
   \<and> slept (snd (store_of (handle_tx_error w ex address index (e, m)))) = slept m"
  by (simp add: handle_tx_error_def notify_error_def Let_def split: sum.splits exn.splits)

lemma on_tx_exception_result:
  "\<exists>m'. on_tx_exception w nm address index sent ex (e, m)
           = Return sent (e\<lparr>error_count := error_count e + 1\<rparr>, m')
        \<and> same_setup m m' \<and> transmitted m' = transmitted m"
proof (cases "handle_tx_error w ex address index (e, m)")
  case (Return u s1)
  with handle_tx_error_store [of w ex address index e m]
  show ?thesis by (cases s1) (simp add: on_tx_exception_def)
next
  case (Raise ex2 s1)
  with handle_tx_error_store [of w ex address index e m]
  show ?thesis by (cases s1) (simp add: on_tx_exception_def)
qed

lemma after_send_result:
  "\<exists>m'. after_send nm index sent (e, m)
           = Return sent (if sent then snd (reset_error_count e) else e, m')
        \<and> same_setup m m' \<and> transmitted m' = transmitted m"
  by (simp add: after_send_def reset_error_count_def)

lemma reset_same_shape [simp]: "same_shape e (snd (reset_error_count e))"
  by (simp add: reset_error_count_def)

lemma visit_entry_result:
  "\<exists>sent' e' m'.
     visit_entry w msg nm address index sent (e, m) = Return sent' (e', m')
     \<and> same_shape e e' \<and> same_setup m m'
     \<and> transmitted m' = transmitted m @ calls_on msg address e
     \<and> (\<forall>ev ex. calls_on msg address e = [ev] \<and> tx_outcome w (transmitted m @ [ev]) = Some ex
           \<longrightarrow> error_count e' = error_count e + 1)
     \<and> sent' = (sent \<or> (\<exists>ev. calls_on msg address e = [ev]
                              \<and> tx_outcome w (transmitted m @ [ev]) = None))"
proof (cases "is_open e \<and> can_send e")
  case False
  then show ?thesis
    by (auto simp add: visit_entry_def calls_on_def is_open_def split: option.splits)
next
  case True
  then obtain c where c: "channel e = Some c" and cs: "can_send e"
    by (auto simp add: is_open_def)
  have v: "visit_entry w msg nm address index sent (e, m)
      = try_except (try_send w msg nm address index sent (e, m))
          (on_tx_exception w nm address index sent)"
    using True by (simp add: visit_entry_def)
  show ?thesis
  proof (cases address)
    case (Address a)
    have calls: "calls_on msg address e = [Send_call c msg a]"
      using c cs Address by (simp add: calls_on_def)
    let ?m1 = "m\<lparr>transmitted := transmitted m @ [Send_call c msg a]\<rparr>"
    show ?thesis
    proof (cases "tx_outcome w (transmitted m @ [Send_call c msg a])")
      case None
      have "try_send w msg nm address index sent (e, m) = after_send nm index True (e, ?m1)"
        using c Address None by (simp add: try_send_def channel_call_def Let_def)
      then show ?thesis
        using v calls None after_send_result [of nm index True e ?m1]
        by (auto simp add: try_except_def)
    next
      case (Some ex)
      have "try_send w msg nm address index sent (e, m) = Raise ex (e, ?m1)"
        using c Address Some by (simp add: try_send_def channel_call_def Let_def)
      then show ?thesis
        using v calls Some on_tx_exception_result [of w nm address index sent ex e ?m1]
        by (auto simp add: try_except_def)
    qed
  next
    case BROADCAST
    show ?thesis
    proof (cases "can_broadcast e")
      case False
      have calls: "calls_on msg address e = []"
        using c cs BROADCAST False by (simp add: calls_on_def)
      have "try_send w msg nm address index sent (e, m) = after_send nm index sent (e, m)"
        using BROADCAST False by (simp add: try_send_def)
      then show ?thesis
        using v calls after_send_result [of nm index sent e m]
        by (auto simp add: try_except_def)
    next
      case True
      show ?thesis
      proof (cases c)
        case (MessageChannel i)
        have calls: "calls_on msg address e = []"
          using c cs BROADCAST True MessageChannel by (simp add: calls_on_def)
        have "try_send w msg nm address index sent (e, m)
            = Raise (AttributeError ''broadcast'') (e, m)"
          using c BROADCAST True MessageChannel by (simp add: try_send_def)
        then show ?thesis
          using v calls
            on_tx_exception_result [of w nm address index sent "AttributeError ''broadcast''" e m]
          by (auto simp add: try_except_def)
      next
        case (BroadcastMessageChannel i)
        have calls: "calls_on msg address e = [Broadcast_call c msg]"
          using c cs BROADCAST True BroadcastMessageChannel by (simp add: calls_on_def)
        let ?m1 = "m\<lparr>transmitted := transmitted m @ [Broadcast_call c msg]\<rparr>"
        show ?thesis
        proof (cases "tx_outcome w (transmitted m @ [Broadcast_call c msg])")
          case None
          let ?m2 = "if broadcast_delay ?m1 > 0
                     then ?m1\<lparr>slept := slept ?m1 @ [broadcast_delay ?m1]\<rparr> else ?m1"
          have "try_send w msg nm address index sent (e, m) = after_send nm index True (e, ?m2)"
            using c BROADCAST True BroadcastMessageChannel None
            by (simp add: try_send_def channel_call_def Let_def)
          then show ?thesis
            using v calls None after_send_result [of nm index True e ?m2]
            by (auto simp add: try_except_def)
        next
          case (Some ex)
          have "try_send w msg nm address index sent (e, m) = Raise ex (e, ?m1)"
            using c BROADCAST True BroadcastMessageChannel Some
            by (simp add: try_send_def channel_call_def Let_def)
          then show ?thesis
            using v calls Some on_tx_exception_result [of w nm address index sent ex e ?m1]
            by (auto simp add: try_except_def)
        qed
      qed
    qed
  qed
qed

subsection \<open>The loop over the entries of a name\<close>

lemma send_to_entries_result:
  "\<exists>sent' es' m'.
     send_to_entries w msg nm address index sent (es, m) = Return sent' (es', m')
     \<and> list_all2 same_shape es es' \<and> same_setup m m'
     \<and> transmitted m' = transmitted m @ concat (map (calls_on msg address) es)
     \<and> (\<forall>i<length es. \<forall>ev ex.
           calls_on msg address (es ! i) = [ev]
           \<and> tx_outcome w (transmitted m @ concat (map (calls_on msg address) (take i es)) @ [ev])
               = Some ex
           \<longrightarrow> error_count (es' ! i) = error_count (es ! i) + 1)
     \<and> sent' = (sent \<or> (\<exists>i<length es. \<exists>ev.
           calls_on msg address (es ! i) = [ev]
           \<and> tx_outcome w (transmitted m @ concat (map (calls_on msg address) (take i es)) @ [ev])
               = None))"
proof (induction es arbitrary: m index sent)
  case Nil
  show ?case by simp
next
  case (Cons e es)
  let ?calls = "calls_on msg address"
  obtain sent1 e1 m1 where
    v: "visit_entry w msg nm address index sent (e, m) = Return sent1 (e1, m1)"
    and shape1: "same_shape e e1" and setup1: "same_setup m m1"
    and tx1: "transmitted m1 = transmitted m @ ?calls e"
    and fail1: "\<forall>ev ex. ?calls e = [ev] \<and> tx_outcome w (transmitted m @ [ev]) = Some ex
                  \<longrightarrow> error_count e1 = error_count e + 1"
    and sent1: "sent1 = (sent \<or> (\<exists>ev. ?calls e = [ev]
                  \<and> tx_outcome w (transmitted m @ [ev]) = None))"
    using visit_entry_result [of w msg nm address index sent e m] by blast
  obtain sent2 es2 m2 where
    l: "send_to_entries w msg nm address (Suc index) sent1 (es, m1) = Return sent2 (es2, m2)"
    and shape2: "list_all2 same_shape es es2" and setup2: "same_setup m1 m2"
    and tx2: "transmitted m2 = transmitted m1 @ concat (map ?calls es)"
    and fail2: "\<forall>i<length es. \<forall>ev ex.
           ?calls (es ! i) = [ev]
           \<and> tx_outcome w (transmitted m1 @ concat (map ?calls (take i es)) @ [ev]) = Some ex
           \<longrightarrow> error_count (es2 ! i) = error_count (es ! i) + 1"
    and sent2: "sent2 = (sent1 \<or> (\<exists>i<length es. \<exists>ev.
           ?calls (es ! i) = [ev]
           \<and> tx_outcome w (transmitted m1 @ concat (map ?calls (take i es)) @ [ev]) = None))"
    using Cons.IH [of "Suc index" sent1 m1] by blast
  have res: "send_to_entries w msg nm address index sent (e # es, m) = Return sent2 (e1 # es2, m2)"
    using v l by simp
  have a: "list_all2 same_shape (e # es) (e1 # es2)"
    using shape1 shape2 by simp
  have b: "same_setup m m2"
    using setup1 setup2 by (rule same_setup_trans)
  have c: "transmitted m2 = transmitted m @ concat (map ?calls (e # es))"
    using tx1 tx2 by simp
  have d: "\<forall>i<length (e # es). \<forall>ev ex.
           ?calls ((e # es) ! i) = [ev]
           \<and> tx_outcome w (transmitted m @ concat (map ?calls (take i (e # es))) @ [ev]) = Some ex
           \<longrightarrow> error_count ((e1 # es2) ! i) = error_count ((e # es) ! i) + 1"
  proof (intro allI impI)
    fix i ev ex
    assume i: "i < length (e # es)"
      and h: "?calls ((e # es) ! i) = [ev]
           \<and> tx_outcome w (transmitted m @ concat (map ?calls (take i (e # es))) @ [ev]) = Some ex"
    show "error_count ((e1 # es2) ! i) = error_count ((e # es) ! i) + 1"
    proof (cases i)
      case 0
      then show ?thesis using h fail1 by simp
    next
      case (Suc j)
      then have "j < length es" using i by simp
      moreover have "?calls (es ! j) = [ev]
           \<and> tx_outcome w (transmitted m1 @ concat (map ?calls (take j es)) @ [ev]) = Some ex"
        using h Suc tx1 by simp
      ultimately have "error_count (es2 ! j) = error_count (es ! j) + 1"
        using fail2 by blast
      then show ?thesis using Suc by simp
    qed
  qed
  have e: "sent2 = (sent \<or> (\<exists>i<length (e # es). \<exists>ev.
           ?calls ((e # es) ! i) = [ev]
           \<and> tx_outcome w (transmitted m @ concat (map ?calls (take i (e # es))) @ [ev]) = None))"
    (is "sent2 = (sent \<or> ?R)")
  proof -
    let ?RA = "\<exists>ev. ?calls e = [ev] \<and> tx_outcome w (transmitted m @ [ev]) = None"
    let ?RB = "\<exists>j<length es. \<exists>ev. ?calls (es ! j) = [ev]
           \<and> tx_outcome w (transmitted m1 @ concat (map ?calls (take j es)) @ [ev]) = None"
    have "?R = (?RA \<or> ?RB)"
    proof
      assume ?R
      then obtain i ev where i: "i < length (e # es)"
        and h: "?calls ((e # es) ! i) = [ev]"
          "tx_outcome w (transmitted m @ concat (map ?calls (take i (e # es))) @ [ev]) = None"
        by blast
      show "?RA \<or> ?RB"
      proof (cases i)
        case 0
        then have ?RA using h by simp
        then show ?thesis ..
      next
        case (Suc j)
        then have "j < length es" "?calls (es ! j) = [ev]"
          "tx_outcome w (transmitted m1 @ concat (map ?calls (take j es)) @ [ev]) = None"
          using i h tx1 by simp_all
        then have ?RB by blast
        then show ?thesis ..
      qed
    next
      assume "?RA \<or> ?RB"
      then show ?R
      proof
        assume ?RA
        then obtain ev where "?calls e = [ev]" "tx_outcome w (transmitted m @ [ev]) = None"
          by blast
        then have "0 < length (e # es) \<and> ?calls ((e # es) ! 0) = [ev]
           \<and> tx_outcome w (transmitted m @ concat (map ?calls (take 0 (e # es))) @ [ev]) = None"
          by simp
        then show ?R by blast
      next
        assume ?RB
        then obtain j ev where "j < length es" "?calls (es ! j) = [ev]"
          "tx_outcome w (transmitted m1 @ concat (map ?calls (take j es)) @ [ev]) = None"
          by blast
        then have "Suc j < length (e # es) \<and> ?calls ((e # es) ! Suc j) = [ev]
           \<and> tx_outcome w (transmitted m @ concat (map ?calls (take (Suc j) (e # es))) @ [ev]) = None"
          using tx1 by simp
        then show ?R by blast
      qed
    qed
    then show ?thesis using sent1 sent2 by blast
  qed
  show ?case using res a b c d e by blast
qed

lemma map_of_store_entries:
  "map_of (store_entries nm es' reg) k
     = (if k = nm \<and> map_of reg nm \<noteq> None then Some es' else map_of reg k)"
  by (induction reg) auto

lemma map_fst_store_entries: "map fst (store_entries nm es' reg) = map fst reg"
  by (induction reg) auto

lemma same_shape_calls_on: "same_shape e e' \<Longrightarrow> calls_on msg address e' = calls_on msg address e"
proof -
  assume "same_shape e e'"
  then have eq: "e'\<lparr>error_count := 0\<rparr> = e\<lparr>error_count := 0\<rparr>" by (simp add: same_shape_def)
  have "channel e' = channel e" "can_send e' = can_send e" "can_broadcast e' = can_broadcast e"
    using arg_cong [OF eq, of channel] arg_cong [OF eq, of can_send]
      arg_cong [OF eq, of can_broadcast] by simp_all
  then show ?thesis by (auto simp add: calls_on_def split: option.splits)
qed

lemma same_shape_list_calls:
  "list_all2 same_shape es es' \<Longrightarrow>
   map (calls_on msg address) es' = map (calls_on msg address) es"
  by (induction rule: list_all2_induct) (simp_all add: same_shape_calls_on)

text \<open>The part of \<open>send_to_resolved\<close> after the loop changes the counters and the log only.\<close>

lemma send_to_resolved_some:
  assumes reg: "map_of (entries_by_name m) nm = Some es" and ne: "es \<noteq> []"
  shows "\<exists>m' es'.
     send_to_resolved w msg nm address (Some es) m = Return () m'
     \<and> transmitted m' = transmitted m @ concat (map (calls_on msg address) es)
     \<and> entries_by_name m' = store_entries nm es' (entries_by_name m)
     \<and> aliases m' = aliases m
     \<and> (\<forall>k. k \<noteq> nm \<longrightarrow> error_counters m' k = error_counters m k)
     \<and> list_all2 same_shape es es'
     \<and> (\<forall>i<length es. \<forall>ev ex.
           calls_on msg address (es ! i) = [ev]
           \<and> tx_outcome w (transmitted m @ concat (map (calls_on msg address) (take i es)) @ [ev])
               = Some ex
           \<longrightarrow> error_count (es' ! i) = error_count (es ! i) + 1)"
proof -
  obtain e rest where es: "es = e # rest" using ne by (cases es) simp_all
  obtain sent' es' m1 where
    l: "send_to_entries w msg nm address 0 False (es, m) = Return sent' (es', m1)"
    and shape: "list_all2 same_shape es es'" and stp: "same_setup m m1"
    and tx: "transmitted m1 = transmitted m @ concat (map (calls_on msg address) es)"
    and fail: "\<forall>i<length es. \<forall>ev ex.
           calls_on msg address (es ! i) = [ev]
           \<and> tx_outcome w (transmitted m @ concat (map (calls_on msg address) (take i es)) @ [ev])
               = Some ex
           \<longrightarrow> error_count (es' ! i) = error_count (es ! i) + 1"
    using send_to_entries_result [of w msg nm address 0 False es m] by blast
  note f = same_setup_fields [OF stp]
  let ?m2 = "with_entries nm es' m1"
  have m2: "transmitted ?m2 = transmitted m1" "aliases ?m2 = aliases m"
    "entries_by_name ?m2 = store_entries nm es' (entries_by_name m)"
    "error_counters ?m2 = error_counters m"
    using f by (simp_all add: with_entries_def)
  have "\<exists>m'. send_to_resolved w msg nm address (Some es) m = Return () m'
      \<and> transmitted m' = transmitted ?m2 \<and> aliases m' = aliases ?m2
      \<and> entries_by_name m' = entries_by_name ?m2
      \<and> (\<forall>k. k \<noteq> nm \<longrightarrow> error_counters m' k = error_counters ?m2 k)"
    using l es by (simp add: send_to_resolved_def Let_def log_call_def)
  then show ?thesis using m2 tx shape fail by auto
qed

lemma send_to_resolved_none:
  assumes "\<not> truthy entries"
  shows "\<exists>m'. send_to_resolved w msg nm address entries m = Return () m'
     \<and> transmitted m' = transmitted m \<and> entries_by_name m' = entries_by_name m
     \<and> aliases m' = aliases m
     \<and> error_counters m' = (error_counters m)(nm := error_counters m nm + 1)"
proof -
  have "entries = None \<or> entries = Some []"
    using assms by (cases entries rule: truthy.cases) simp_all
  then show ?thesis
    by (auto simp add: send_to_resolved_def Let_def log_call_def)
qed

text \<open>The equations that evaluate a dispatch on the example inputs.\<close>

lemmas eval_defs =
  dispatch_def send_message_to_single_channel.simps send_to_resolved_def
  visit_entry_def try_send_def try_except_def on_tx_exception_def handle_tx_error_def
  notify_error_def reset_error_count_def after_send_def channel_call_def log_call_def
  format_id_def str_nat.simps with_entries_def is_open_def Let_def
  example_manager_def empty_manager_def init_def entry_A0_def entry_A1_def entry_B0_def
  set_channel_def new_entry_def example_world_def flaky_world_def
  formatted_address_of_def log_os_error_during_tx_def str_int_def
  no_suitable_channel_def

text \<open>
  Against claim C3 as stated. Entry \<open>B[0]\<close> is open and can send, but its channel cannot
  broadcast: a packet for the broadcast address of \<open>B\<close> leads to no call at all on it,
  neither \<open>broadcast\<close> nor \<open>send\<close>, and the dispatch counts as failed.
\<close>

theorem broadcast_skips_open_entry:
  "is_open entry_B0 \<and> can_send entry_B0
   \<and> send_message_to_single_channel (Suc 0) example_world ''pkt'' (''B'', BROADCAST) example_manager
     = Some (Return ()
         (example_manager\<lparr>error_counters := (error_counters example_manager)(''B'' := 1)\<rparr>))
   \<and> transmitted
        (example_manager\<lparr>error_counters := (error_counters example_manager)(''B'' := 1)\<rparr>) = []"
  by (simp add: eval_defs)

text \<open>
  Claim C3, amended. When the name resolves to a list of registry entries (its own
  entries, or those of the one target of its alias), the dispatch returns without
  raising, whatever the calls on the channels do, and the calls it made are, in the order
  of registration, those of \<open>calls_on\<close>: for a proper address one \<open>send\<close> on every entry
  that is open and can send; for the address \<open>BROADCAST\<close> one \<open>broadcast\<close> on every
  entry that is open, can send and can broadcast, and no call on an entry that cannot
  broadcast. The loop does not stop at a success or at a failure: the call on an entry is
  made after the calls on all entries before it. A call that raises runs the classifier
  on its entry, which increments the error count of that entry by one; the entries are
  otherwise unchanged.
\<close>

theorem send_visits_every_entry:
  assumes "resolves_to m nm r es"
  shows "\<exists>m' es'.
     send_message_to_single_channel (Suc depth) w msg (nm, address) m = Some (Return () m')
     \<and> transmitted m' = transmitted m @ concat (map (calls_on msg address) es)
     \<and> map_of (entries_by_name m') r = Some es'
     \<and> list_all2 same_shape es es'
     \<and> (\<forall>i<length es. \<forall>ev ex.
           calls_on msg address (es ! i) = [ev]
           \<and> tx_outcome w (transmitted m @ concat (map (calls_on msg address) (take i es)) @ [ev])
               = Some ex
           \<longrightarrow> error_count (es' ! i) = error_count (es ! i) + 1)"
proof -
  have ne: "es \<noteq> []" and reg: "map_of (entries_by_name m) r = Some es"
    and via: "r = nm \<or> (\<not> truthy (map_of (entries_by_name m) nm) \<and> aliases m nm = Some [r])"
    using assms by (simp_all add: resolves_to_def)
  have t: "truthy (map_of (entries_by_name m) r)"
    using reg ne by (cases es) simp_all
  have call: "send_message_to_single_channel (Suc depth) w msg (nm, address) m
      = Some (send_to_resolved w msg r address (Some es) m)"
    using via
  proof
    assume "r = nm"
    then show ?thesis
      using t reg by (simp add: send_message_to_single_channel.simps Let_def)
  next
    assume "\<not> truthy (map_of (entries_by_name m) nm) \<and> aliases m nm = Some [r]"
    then show ?thesis
      using reg by (simp add: send_message_to_single_channel.simps Let_def)
  qed
  obtain m' es' where
    "send_to_resolved w msg r address (Some es) m = Return () m'"
    "transmitted m' = transmitted m @ concat (map (calls_on msg address) es)"
    "entries_by_name m' = store_entries r es' (entries_by_name m)"
    "list_all2 same_shape es es'"
    "\<forall>i<length es. \<forall>ev ex.
           calls_on msg address (es ! i) = [ev]
           \<and> tx_outcome w (transmitted m @ concat (map (calls_on msg address) (take i es)) @ [ev])
               = Some ex
           \<longrightarrow> error_count (es' ! i) = error_count (es ! i) + 1"
    using send_to_resolved_some [OF reg ne, of w msg address] by blast
  moreover have "map_of (store_entries r es' (entries_by_name m)) r = Some es'"
    using reg by (simp add: map_of_store_entries)
  ultimately show ?thesis using call by auto
qed

theorem send_visits_every_entry_witness:
  "resolves_to example_manager ''A'' ''A'' [entry_A0, entry_A1]
   \<and> (\<exists>m' es'.
        send_message_to_single_channel (Suc 0) flaky_world ''pkt'' (''A'', Address 7) example_manager
          = Some (Return () m')
        \<and> transmitted m'
            = [Send_call (BroadcastMessageChannel 1) ''pkt'' 7, Send_call (MessageChannel 3) ''pkt'' 7]
        \<and> map_of (entries_by_name m') ''A'' = Some es'
        \<and> error_count (es' ! 0) = 1)
   \<and> resolves_to (example_manager\<lparr>aliases := [''G'' \<mapsto> [''A'']]\<rparr>) ''G'' ''A''
        [entry_A0, entry_A1]
   \<and> (\<exists>m' es'.
        send_message_to_single_channel (Suc 0) flaky_world ''pkt'' (''G'', Address 7)
            (example_manager\<lparr>aliases := [''G'' \<mapsto> [''A'']]\<rparr>)
          = Some (Return () m')
        \<and> transmitted m'
            = [Send_call (BroadcastMessageChannel 1) ''pkt'' 7, Send_call (MessageChannel 3) ''pkt'' 7]
        \<and> map_of (entries_by_name m') ''A'' = Some es'
        \<and> error_count (es' ! 0) = 1)"
proof -
  let ?es = "[entry_A0, entry_A1]"
  let ?mg = "example_manager\<lparr>aliases := [''G'' \<mapsto> [''A'']]\<rparr>"
  have h1: "resolves_to example_manager ''A'' ''A'' ?es"
    by (simp add: resolves_to_def example_manager_def)
  have h2: "resolves_to ?mg ''G'' ''A'' ?es"
    by (simp add: resolves_to_def example_manager_def)
  have calls: "calls_on ''pkt'' (Address (7::nat)) entry_A0
        = [Send_call (BroadcastMessageChannel 1) ''pkt'' 7]"
      "calls_on ''pkt'' (Address (7::nat)) entry_A1 = [Send_call (MessageChannel 3) ''pkt'' 7]"
    by (simp_all add: calls_on_def entry_A0_def entry_A1_def set_channel_def new_entry_def)
  have tx0: "transmitted example_manager = []" "transmitted ?mg = []"
    by (simp_all add: example_manager_def empty_manager_def init_def)
  have fails: "tx_outcome flaky_world
        ([] @ concat (map (calls_on ''pkt'' (Address 7)) (take 0 ?es))
          @ [Send_call (BroadcastMessageChannel 1) ''pkt'' 7]) = Some (OSError (Some 101))"
    by (simp add: flaky_world_def example_world_def)
  have ec: "error_count entry_A0 = 0"
    by (simp add: entry_A0_def set_channel_def new_entry_def)
  have a: "\<exists>m' es'.
        send_message_to_single_channel (Suc 0) flaky_world ''pkt'' (''A'', Address 7) example_manager
          = Some (Return () m')
        \<and> transmitted m'
            = [Send_call (BroadcastMessageChannel 1) ''pkt'' 7, Send_call (MessageChannel 3) ''pkt'' 7]
        \<and> map_of (entries_by_name m') ''A'' = Some es'
        \<and> error_count (es' ! 0) = 1"
  proof -
    obtain m' es' where r:
      "send_message_to_single_channel (Suc 0) flaky_world ''pkt'' (''A'', Address 7) example_manager
         = Some (Return () m')"
      "transmitted m' = transmitted example_manager
          @ concat (map (calls_on ''pkt'' (Address 7)) ?es)"
      "map_of (entries_by_name m') ''A'' = Some es'"
      "\<forall>i<length ?es. \<forall>ev ex.
          calls_on ''pkt'' (Address 7) (?es ! i) = [ev]
          \<and> tx_outcome flaky_world
               (transmitted example_manager
                 @ concat (map (calls_on ''pkt'' (Address 7)) (take i ?es)) @ [ev])
              = Some ex
          \<longrightarrow> error_count (es' ! i) = error_count (?es ! i) + 1"
      using send_visits_every_entry [OF h1, of 0 flaky_world "''pkt''" "Address 7"] by blast
    have "0 < length ?es" by simp
    then have "error_count (es' ! 0) = error_count (?es ! 0) + 1"
      using r(4) calls(1) fails tx0(1) by (metis nth_Cons_0)
    then have "error_count (es' ! 0) = 1" using ec by simp
    moreover have "transmitted m'
        = [Send_call (BroadcastMessageChannel 1) ''pkt'' 7, Send_call (MessageChannel 3) ''pkt'' 7]"
      using r(2) calls tx0 by simp
    ultimately show ?thesis using r(1) r(3) by blast
  qed
  have b: "\<exists>m' es'.
        send_message_to_single_channel (Suc 0) flaky_world ''pkt'' (''G'', Address 7) ?mg
          = Some (Return () m')
        \<and> transmitted m'
            = [Send_call (BroadcastMessageChannel 1) ''pkt'' 7, Send_call (MessageChannel 3) ''pkt'' 7]
        \<and> map_of (entries_by_name m') ''A'' = Some es'
        \<and> error_count (es' ! 0) = 1"
  proof -
    obtain m' es' where r:
      "send_message_to_single_channel (Suc 0) flaky_world ''pkt'' (''G'', Address 7) ?mg
         = Some (Return () m')"
      "transmitted m' = transmitted ?mg
          @ concat (map (calls_on ''pkt'' (Address 7)) ?es)"
      "map_of (entries_by_name m') ''A'' = Some es'"
      "\<forall>i<length ?es. \<forall>ev ex.
          calls_on ''pkt'' (Address 7) (?es ! i) = [ev]
          \<and> tx_outcome flaky_world
               (transmitted ?mg
                 @ concat (map (calls_on ''pkt'' (Address 7)) (take i ?es)) @ [ev])
              = Some ex
          \<longrightarrow> error_count (es' ! i) = error_count (?es ! i) + 1"
      using send_visits_every_entry [OF h2, of 0 flaky_world "''pkt''" "Address 7"] by blast
    have "0 < length ?es" by simp
    then have "error_count (es' ! 0) = error_count (?es ! 0) + 1"
      using r(4) calls(1) fails tx0(2) by (metis nth_Cons_0)
    then have "error_count (es' ! 0) = 1" using ec by simp
    moreover have "transmitted m'
        = [Send_call (BroadcastMessageChannel 1) ''pkt'' 7, Send_call (MessageChannel 3) ''pkt'' 7]"
      using r(2) calls tx0 by simp
    ultimately show ?thesis using r(1) r(3) by blast
  qed
  show ?thesis using h1 h2 a b by blast
qed

subsection \<open>Resolution through the alias table\<close>

lemma same_registry_refl [simp]: "same_registry m m"
  by (simp add: same_registry_def option.rel_refl list.rel_refl)

lemma same_shape_list_trans:
  "list_all2 same_shape xs ys \<Longrightarrow> list_all2 same_shape ys zs \<Longrightarrow> list_all2 same_shape xs zs"
  by (rule list_all2_trans [of same_shape same_shape same_shape]) (auto intro: same_shape_trans)

lemma same_registry_trans:
  assumes "same_registry m m1" and "same_registry m1 m2"
  shows "same_registry m m2"
  unfolding same_registry_def
proof
  fix k
  have a: "rel_option (list_all2 same_shape) (map_of (entries_by_name m) k) (map_of (entries_by_name m1) k)"
    and b: "rel_option (list_all2 same_shape) (map_of (entries_by_name m1) k) (map_of (entries_by_name m2) k)"
    using assms by (simp_all add: same_registry_def)
  show "rel_option (list_all2 same_shape) (map_of (entries_by_name m) k) (map_of (entries_by_name m2) k)"
    using a b
    by (cases "map_of (entries_by_name m) k"; cases "map_of (entries_by_name m1) k";
        cases "map_of (entries_by_name m2) k") (auto intro: same_shape_list_trans)
qed

lemma same_registry_entries_of:
  assumes "same_registry m m'"
  shows "map (calls_on msg address) (entries_of m' t) = map (calls_on msg address) (entries_of m t)"
    and "(map_of (entries_by_name m') t \<noteq> None) = (map_of (entries_by_name m) t \<noteq> None)"
proof -
  have r: "rel_option (list_all2 same_shape) (map_of (entries_by_name m) t) (map_of (entries_by_name m') t)"
    using assms by (simp add: same_registry_def)
  show "map (calls_on msg address) (entries_of m' t) = map (calls_on msg address) (entries_of m t)"
    using r
    by (cases "map_of (entries_by_name m) t"; cases "map_of (entries_by_name m') t")
       (auto simp add: entries_of_def same_shape_list_calls)
  show "(map_of (entries_by_name m') t \<noteq> None) = (map_of (entries_by_name m) t \<noteq> None)"
    using r
    by (cases "map_of (entries_by_name m) t"; cases "map_of (entries_by_name m') t") auto
qed

lemma same_registry_nonempty:
  assumes "same_registry m m'"
    and "\<forall>k es. map_of (entries_by_name m) k = Some es \<longrightarrow> es \<noteq> []"
  shows "\<forall>k es. map_of (entries_by_name m') k = Some es \<longrightarrow> es \<noteq> []"
proof (intro allI impI)
  fix k es
  assume h: "map_of (entries_by_name m') k = Some es"
  have "rel_option (list_all2 same_shape) (map_of (entries_by_name m) k) (map_of (entries_by_name m') k)"
    using assms(1) by (simp add: same_registry_def)
  then obtain es0 where "map_of (entries_by_name m) k = Some es0" "list_all2 same_shape es0 es"
    using h by (cases "map_of (entries_by_name m) k") auto
  then show "es \<noteq> []" using assms(2) by auto
qed

lemma resolved_step:
  "\<exists>m1. send_to_resolved w msg t address (map_of (entries_by_name m0) t) m0 = Return () m1
     \<and> transmitted m1 = transmitted m0 @ concat (map (calls_on msg address) (entries_of m0 t))
     \<and> same_registry m0 m1 \<and> aliases m1 = aliases m0
     \<and> map fst (entries_by_name m1) = map fst (entries_by_name m0)
     \<and> (\<forall>k. k \<noteq> t \<longrightarrow> error_counters m1 k = error_counters m0 k)
     \<and> (\<not> truthy (map_of (entries_by_name m0) t)
          \<longrightarrow> error_counters m1 t = error_counters m0 t + 1)"
proof (cases "truthy (map_of (entries_by_name m0) t)")
  case False
  then have "entries_of m0 t = []"
    by (cases "map_of (entries_by_name m0) t" rule: truthy.cases) (simp_all add: entries_of_def)
  moreover obtain m1 where
    "send_to_resolved w msg t address (map_of (entries_by_name m0) t) m0 = Return () m1"
    "transmitted m1 = transmitted m0" "entries_by_name m1 = entries_by_name m0"
    "aliases m1 = aliases m0"
    "error_counters m1 = (error_counters m0)(t := error_counters m0 t + 1)"
    using send_to_resolved_none [OF False, of w msg t address m0] by blast
  moreover have "entries_by_name m1 = entries_by_name m0 \<Longrightarrow> same_registry m0 m1"
    by (simp add: same_registry_def option.rel_refl list.rel_refl)
  ultimately show ?thesis by auto
next
  case True
  then obtain es where es: "map_of (entries_by_name m0) t = Some es" "es \<noteq> []"
    by (cases "map_of (entries_by_name m0) t" rule: truthy.cases) simp_all
  obtain m1 es' where r:
    "send_to_resolved w msg t address (Some es) m0 = Return () m1"
    "transmitted m1 = transmitted m0 @ concat (map (calls_on msg address) es)"
    "entries_by_name m1 = store_entries t es' (entries_by_name m0)"
    "aliases m1 = aliases m0"
    "list_all2 same_shape es es'"
    "\<forall>k. k \<noteq> t \<longrightarrow> error_counters m1 k = error_counters m0 k"
    using send_to_resolved_some [OF es, of w msg address] by blast
  have "same_registry m0 m1"
    unfolding same_registry_def
    using r(3) r(5) es(1)
    by (auto simp add: map_of_store_entries option.rel_refl list.rel_refl)
  moreover have "entries_of m0 t = es" using es(1) by (simp add: entries_of_def)
  ultimately show ?thesis using r es(1) True by (auto simp add: map_fst_store_entries)
qed

lemma registered_step:
  assumes "\<forall>k es. map_of (entries_by_name m0) k = Some es \<longrightarrow> es \<noteq> []"
    and "map_of (entries_by_name m0) t \<noteq> None"
  shows "send_message_to_single_channel (Suc d) w msg (t, address) m0
     = Some (send_to_resolved w msg t address (map_of (entries_by_name m0) t) m0)"
proof -
  obtain es where "map_of (entries_by_name m0) t = Some es" "es \<noteq> []"
    using assms by auto
  then have "truthy (map_of (entries_by_name m0) t)" by (cases es) simp_all
  then show ?thesis by (simp add: send_message_to_single_channel.simps Let_def)
qed

lemma for_each_target_result:
  assumes "\<forall>k es. map_of (entries_by_name m0) k = Some es \<longrightarrow> es \<noteq> []"
  shows "\<exists>m1. for_each_target (\<lambda>t. send_message_to_single_channel (Suc d) w msg (t, address)) ts m0
             = Some (Return () m1)
     \<and> transmitted m1
        = transmitted m0 @ concat (map (\<lambda>t. concat (map (calls_on msg address) (entries_of m0 t))) ts)
     \<and> same_registry m0 m1 \<and> aliases m1 = aliases m0
     \<and> map fst (entries_by_name m1) = map fst (entries_by_name m0)
     \<and> (\<forall>k. map_of (entries_by_name m0) k = None
            \<longrightarrow> error_counters m1 k = error_counters m0 k)"
  using assms
proof (induction ts arbitrary: m0)
  case Nil
  show ?case by simp
next
  case (Cons t ts)
  let ?f = "\<lambda>t. send_message_to_single_channel (Suc d) w msg (t, address)"
  show ?case
  proof (cases "map_of (entries_by_name m0) t \<noteq> None")
    case False
    then have none: "entries_of m0 t = []" by (simp add: entries_of_def)
    obtain m1 where "for_each_target ?f ts m0 = Some (Return () m1)"
      "transmitted m1
        = transmitted m0 @ concat (map (\<lambda>t. concat (map (calls_on msg address) (entries_of m0 t))) ts)"
      "same_registry m0 m1" "aliases m1 = aliases m0"
      "map fst (entries_by_name m1) = map fst (entries_by_name m0)"
      "\<forall>k. map_of (entries_by_name m0) k = None \<longrightarrow> error_counters m1 k = error_counters m0 k"
      using Cons.IH [OF Cons.prems] by blast
    then show ?thesis using False none by simp
  next
    case True
    obtain m1 where s:
      "send_to_resolved w msg t address (map_of (entries_by_name m0) t) m0 = Return () m1"
      "transmitted m1 = transmitted m0 @ concat (map (calls_on msg address) (entries_of m0 t))"
      "same_registry m0 m1" "aliases m1 = aliases m0"
      "map fst (entries_by_name m1) = map fst (entries_by_name m0)"
      "\<forall>k. k \<noteq> t \<longrightarrow> error_counters m1 k = error_counters m0 k"
      using resolved_step [of w msg t address m0] by blast
    have call: "?f t m0 = Some (Return () m1)"
      using registered_step [OF Cons.prems True, of d w msg address] s(1) by simp
    have ne1: "\<forall>k es. map_of (entries_by_name m1) k = Some es \<longrightarrow> es \<noteq> []"
      using same_registry_nonempty [OF s(3) Cons.prems] .
    obtain m2 where r:
      "for_each_target ?f ts m1 = Some (Return () m2)"
      "transmitted m2
        = transmitted m1 @ concat (map (\<lambda>t. concat (map (calls_on msg address) (entries_of m1 t))) ts)"
      "same_registry m1 m2" "aliases m2 = aliases m1"
      "map fst (entries_by_name m2) = map fst (entries_by_name m1)"
      "\<forall>k. map_of (entries_by_name m1) k = None \<longrightarrow> error_counters m2 k = error_counters m1 k"
      using Cons.IH [OF ne1] by blast
    have same_calls: "map (\<lambda>t. concat (map (calls_on msg address) (entries_of m1 t))) ts
        = map (\<lambda>t. concat (map (calls_on msg address) (entries_of m0 t))) ts"
      using same_registry_entries_of(1) [OF s(3), of msg address] by simp
    have res: "for_each_target ?f (t # ts) m0 = Some (Return () m2)"
      using True call r(1) by simp
    have "transmitted m2
        = transmitted m0 @ concat (map (\<lambda>t. concat (map (calls_on msg address) (entries_of m0 t))) (t # ts))"
      using r(2) s(2) same_calls by simp
    moreover have "same_registry m0 m2" using s(3) r(3) by (rule same_registry_trans)
    moreover have "\<forall>k. map_of (entries_by_name m0) k = None
        \<longrightarrow> error_counters m2 k = error_counters m0 k"
    proof (intro allI impI)
      fix k
      assume k: "map_of (entries_by_name m0) k = None"
      then have "k \<noteq> t" using True by auto
      then have "error_counters m1 k = error_counters m0 k" using s(6) by simp
      moreover have "map_of (entries_by_name m1) k = None"
        using same_registry_entries_of(2) [OF s(3), of k] k by simp
      ultimately show "error_counters m2 k = error_counters m0 k" using r(6) by simp
    qed
    ultimately show ?thesis using res s(4,5) r(4,5) by simp
  qed
qed

lemma registry_wf_nonempty:
  "registry_wf reg \<Longrightarrow> \<forall>k es. map_of reg k = Some es \<longrightarrow> es \<noteq> []"
  by (auto simp add: registry_wf_def dest!: map_of_SomeD)

lemma append_entry_keys:
  "map fst (append_entry n e reg) = (if n \<in> set (map fst reg) then map fst reg else map fst reg @ [n])"
proof (induction reg)
  case Nil
  show ?case by simp
next
  case (Cons p reg)
  obtain k es where p: "p = (k, es)" by (cases p)
  show ?case using Cons.IH by (cases "k = n") (simp_all add: p)
qed

lemma append_entry_nonempty:
  "\<forall>p \<in> set reg. snd p \<noteq> [] \<Longrightarrow> \<forall>p \<in> set (append_entry n e reg). snd p \<noteq> []"
proof (induction reg)
  case Nil
  show ?case by simp
next
  case (Cons p reg)
  obtain k es where p: "p = (k, es)" by (cases p)
  show ?case using Cons by (cases "k = n") (simp_all add: p)
qed

text \<open>The registry is well formed initially and \<open>add\<close> keeps it so.\<close>

lemma init_registry_wf: "registry_wf (entries_by_name (init fmt))"
  by (simp add: registry_wf_def init_def)

lemma add_keeps_registry_wf:
  assumes "registry_wf (entries_by_name m)" and "add w c n cs m = Return () m'"
  shows "registry_wf (entries_by_name m')"
proof -
  have "entries_by_name m' = append_entry n (new_entry c n (case cs of None \<Rightarrow> connection_can_send w c | Some b \<Rightarrow> b)) (entries_by_name m)"
    using assms(2) by (auto simp add: add_def Let_def split: if_splits)
  then show ?thesis
    using assms(1) append_entry_nonempty [of "entries_by_name m" n]
    by (auto simp add: registry_wf_def append_entry_keys)
qed

text \<open>
  Against claim C5 as stated. With the aliases \<open>G\<close> for \<open>H\<close> and \<open>H\<close> for \<open>B\<close>, a packet
  for \<open>G\<close> is not sent on the channel of \<open>B\<close>: the single target \<open>H\<close> is looked up in
  the registry only, the dispatch counts as a failure of \<open>H\<close> and nothing is transmitted,
  although a packet for \<open>H\<close> itself reaches \<open>B\<close>.
\<close>

theorem alias_chain_not_followed:
  "send_message_to_single_channel (Suc (Suc (Suc 0))) example_world ''pkt'' (''G'', Address 7)
     (example_manager\<lparr>aliases := [''G'' \<mapsto> [''H''], ''H'' \<mapsto> [''B'']]\<rparr>)
     = Some (Return ()
         (example_manager\<lparr>aliases := [''G'' \<mapsto> [''H''], ''H'' \<mapsto> [''B'']],
            error_counters := (error_counters example_manager)(''H'' := 1),
            logged := [no_suitable_channel ''H'']\<rparr>))
   \<and> transmitted
        (example_manager\<lparr>aliases := [''G'' \<mapsto> [''H''], ''H'' \<mapsto> [''B'']],
            error_counters := (error_counters example_manager)(''H'' := 1),
            logged := [no_suitable_channel ''H'']\<rparr>) = []
   \<and> send_message_to_single_channel (Suc (Suc (Suc 0))) example_world ''pkt'' (''H'', Address 7)
     (example_manager\<lparr>aliases := [''G'' \<mapsto> [''H''], ''H'' \<mapsto> [''B'']]\<rparr>)
     = Some (Return ()
         (example_manager\<lparr>aliases := [''G'' \<mapsto> [''H''], ''H'' \<mapsto> [''B'']],
            error_counters := (error_counters example_manager)(''B'' := 0),
            transmitted := [Send_call (MessageChannel 2) ''pkt'' 7]\<rparr>))"
  by (simp add: eval_defs)

text \<open>
  Claim C5, amended. For a name without entries in the registry and with an alias of one
  or more targets, the dispatch returns without raising, whatever the calls on the
  channels do, and the message goes to the targets in the order of the list: the calls
  made are those on the entries registered under the first target, then those on the
  entries registered under the second, and so on. Each target is looked up in the
  registry only, and aliases of aliases are not followed. With exactly one target, a
  target that is not a registered name (an alias included) makes the dispatch a failed
  send: its counter of consecutive failures goes up by one and no other counter changes.
  With several targets, a target that is not a registered name is skipped: it gets no
  call and its counter stays as it was. A failure on one target does not keep the later
  targets from their calls. The aliases and the registered names are unchanged.
\<close>

theorem alias_dispatch:
  assumes "registry_wf (entries_by_name m)"
    and "map_of (entries_by_name m) nm = None"
    and "aliases m nm = Some targets" and "targets \<noteq> []"
  shows "\<exists>m'.
     send_message_to_single_channel (Suc (Suc depth)) w msg (nm, address) m = Some (Return () m')
     \<and> transmitted m'
        = transmitted m
          @ concat (map (\<lambda>t. concat (map (calls_on msg address) (entries_of m t))) targets)
     \<and> aliases m' = aliases m
     \<and> map fst (entries_by_name m') = map fst (entries_by_name m)
     \<and> (\<forall>t. targets = [t] \<and> map_of (entries_by_name m) t = None
            \<longrightarrow> error_counters m' = (error_counters m)(t := error_counters m t + 1))
     \<and> (length targets \<noteq> 1
          \<longrightarrow> (\<forall>k. map_of (entries_by_name m) k = None
                  \<longrightarrow> error_counters m' k = error_counters m k))"
proof -
  note ne = registry_wf_nonempty [OF assms(1)]
  obtain t rest where ts: "targets = t # rest" using assms(4) by (cases targets) simp_all
  show ?thesis
  proof (cases rest)
    case Nil
    have call: "send_message_to_single_channel (Suc (Suc depth)) w msg (nm, address) m
        = Some (send_to_resolved w msg t address (map_of (entries_by_name m) t) m)"
      using assms(2,3) ts Nil by (simp add: send_message_to_single_channel.simps Let_def)
    obtain m1 where r:
      "send_to_resolved w msg t address (map_of (entries_by_name m) t) m = Return () m1"
      "transmitted m1 = transmitted m @ concat (map (calls_on msg address) (entries_of m t))"
      "aliases m1 = aliases m"
      "map fst (entries_by_name m1) = map fst (entries_by_name m)"
      "\<forall>k. k \<noteq> t \<longrightarrow> error_counters m1 k = error_counters m k"
      "\<not> truthy (map_of (entries_by_name m) t) \<longrightarrow> error_counters m1 t = error_counters m t + 1"
      using resolved_step [of w msg t address m] by blast
    have "map_of (entries_by_name m) t = None
        \<Longrightarrow> error_counters m1 = (error_counters m)(t := error_counters m t + 1)"
      using r(5,6) by (auto simp add: fun_eq_iff)
    then show ?thesis using call r(1-4) ts Nil by auto
  next
    case (Cons t2 rest2)
    have "send_message_to_single_channel (Suc (Suc depth)) w msg (nm, address) m
        = for_each_target (\<lambda>t. send_message_to_single_channel (Suc depth) w msg (t, address))
            targets m"
      using assms(2,3) ts Cons by (simp add: send_message_to_single_channel.simps Let_def)
    moreover have "length targets \<noteq> 1" "\<forall>t. targets \<noteq> [t]" using ts Cons by simp_all
    ultimately show ?thesis
      using for_each_target_result [OF ne, of depth w msg address targets] by auto
  qed
qed

theorem alias_dispatch_witness:
  "registry_wf (entries_by_name (example_manager\<lparr>aliases := [''G'' \<mapsto> [''A'', ''Z'', ''B'']]\<rparr>))
   \<and> map_of (entries_by_name (example_manager\<lparr>aliases := [''G'' \<mapsto> [''A'', ''Z'', ''B'']]\<rparr>)) ''G''
       = None
   \<and> aliases (example_manager\<lparr>aliases := [''G'' \<mapsto> [''A'', ''Z'', ''B'']]\<rparr>) ''G''
       = Some [''A'', ''Z'', ''B'']
   \<and> [''A'', ''Z'', ''B''] \<noteq> []
   \<and> length [''A'', ''Z'', ''B''] \<noteq> 1
   \<and> map_of (entries_by_name (example_manager\<lparr>aliases := [''G'' \<mapsto> [''A'', ''Z'', ''B'']]\<rparr>)) ''Z''
       = None
   \<and> (\<exists>m'. send_message_to_single_channel (Suc (Suc 0)) flaky_world ''pkt'' (''G'', Address 7)
              (example_manager\<lparr>aliases := [''G'' \<mapsto> [''A'', ''Z'', ''B'']]\<rparr>)
            = Some (Return () m')
          \<and> transmitted m'
              = [Send_call (BroadcastMessageChannel 1) ''pkt'' 7,
                 Send_call (MessageChannel 3) ''pkt'' 7,
                 Send_call (MessageChannel 2) ''pkt'' 7]
          \<and> error_counters m' ''Z'' = 0)
   \<and> aliases (example_manager\<lparr>aliases := [''G'' \<mapsto> [''Z'']]\<rparr>) ''G'' = Some [''Z'']
   \<and> (\<exists>m'. send_message_to_single_channel (Suc (Suc 0)) flaky_world ''pkt'' (''G'', Address 7)
              (example_manager\<lparr>aliases := [''G'' \<mapsto> [''Z'']]\<rparr>)
            = Some (Return () m')
          \<and> transmitted m' = []
          \<and> error_counters m' ''Z'' = 1)"
proof -
  let ?m = "example_manager\<lparr>aliases := [''G'' \<mapsto> [''A'', ''Z'', ''B'']]\<rparr>"
  let ?n = "example_manager\<lparr>aliases := [''G'' \<mapsto> [''Z'']]\<rparr>"
  have h1: "registry_wf (entries_by_name ?m)" "registry_wf (entries_by_name ?n)"
    by (simp_all add: registry_wf_def example_manager_def)
  have h2: "map_of (entries_by_name ?m) ''G'' = None" "map_of (entries_by_name ?n) ''G'' = None"
    by (simp_all add: example_manager_def)
  have h3: "aliases ?m ''G'' = Some [''A'', ''Z'', ''B'']" "aliases ?n ''G'' = Some [''Z'']"
    by simp_all
  have h4: "[''A'', ''Z'', ''B''] \<noteq> ([] :: string list)" "[''Z''] \<noteq> ([] :: string list)"
    by simp_all
  have h5: "length [''A'', ''Z'', ''B''] \<noteq> 1" by simp
  have z: "map_of (entries_by_name ?m) ''Z'' = None" "map_of (entries_by_name ?n) ''Z'' = None"
    by (simp_all add: example_manager_def)
  have c0: "error_counters ?m ''Z'' = 0" "error_counters ?n ''Z'' = 0"
    by (simp_all add: example_manager_def empty_manager_def init_def)
  have calls: "transmitted ?m
      @ concat (map (\<lambda>t. concat (map (calls_on ''pkt'' (Address 7)) (entries_of ?m t)))
                 [''A'', ''Z'', ''B''])
      = [Send_call (BroadcastMessageChannel 1) ''pkt'' 7,
         Send_call (MessageChannel 3) ''pkt'' 7,
         Send_call (MessageChannel 2) ''pkt'' 7]"
    by (simp add: entries_of_def calls_on_def example_manager_def empty_manager_def init_def
          entry_A0_def entry_A1_def entry_B0_def set_channel_def new_entry_def)
  have calls_n: "transmitted ?n
      @ concat (map (\<lambda>t. concat (map (calls_on ''pkt'' (Address (7::nat))) (entries_of ?n t))) [''Z''])
      = []"
    by (simp add: entries_of_def example_manager_def empty_manager_def init_def)
  have a: "\<exists>m'. send_message_to_single_channel (Suc (Suc 0)) flaky_world ''pkt'' (''G'', Address 7) ?m
            = Some (Return () m')
          \<and> transmitted m'
              = [Send_call (BroadcastMessageChannel 1) ''pkt'' 7,
                 Send_call (MessageChannel 3) ''pkt'' 7,
                 Send_call (MessageChannel 2) ''pkt'' 7]
          \<and> error_counters m' ''Z'' = 0"
  proof -
    obtain m' where r:
      "send_message_to_single_channel (Suc (Suc 0)) flaky_world ''pkt'' (''G'', Address 7) ?m
         = Some (Return () m')"
      "transmitted m' = transmitted ?m
         @ concat (map (\<lambda>t. concat (map (calls_on ''pkt'' (Address 7)) (entries_of ?m t)))
                    [''A'', ''Z'', ''B''])"
      "length [''A'', ''Z'', ''B''] \<noteq> 1
         \<longrightarrow> (\<forall>k. map_of (entries_by_name ?m) k = None
                 \<longrightarrow> error_counters m' k = error_counters ?m k)"
      using alias_dispatch [OF h1(1) h2(1) h3(1) h4(1), of 0 flaky_world "''pkt''" "Address 7"]
      by blast
    have "error_counters m' ''Z'' = error_counters ?m ''Z''" using r(3) h5 z(1) by blast
    then show ?thesis using r(1,2) calls c0(1) by (simp only:) blast
  qed
  have b: "\<exists>m'. send_message_to_single_channel (Suc (Suc 0)) flaky_world ''pkt'' (''G'', Address 7) ?n
            = Some (Return () m')
          \<and> transmitted m' = []
          \<and> error_counters m' ''Z'' = 1"
  proof -
    obtain m' where r:
      "send_message_to_single_channel (Suc (Suc 0)) flaky_world ''pkt'' (''G'', Address 7) ?n
         = Some (Return () m')"
      "transmitted m' = transmitted ?n
         @ concat (map (\<lambda>t. concat (map (calls_on ''pkt'' (Address 7)) (entries_of ?n t))) [''Z''])"
      "\<forall>t. [''Z''] = [t] \<and> map_of (entries_by_name ?n) t = None
            \<longrightarrow> error_counters m' = (error_counters ?n)(t := error_counters ?n t + 1)"
      using alias_dispatch [OF h1(2) h2(2) h3(2) h4(2), of 0 flaky_world "''pkt''" "Address 7"]
      by blast
    have "error_counters m' = (error_counters ?n)(''Z'' := error_counters ?n ''Z'' + 1)"
      using r(3) z(2) by blast
    then have "error_counters m' ''Z'' = 1" using c0(2) by simp
    then show ?thesis using r(1,2) calls_n by (simp only:) blast
  qed
  show ?thesis using h1(1) h2(1) h3 h4(1) h5 z(1) a b by blast
qed

subsection \<open>A name that resolves to nothing\<close>

text \<open>
  Against claim C1 as stated. The name \<open>nosuch\<close> has no entries and no alias; a packet
  for it leaves the manager as it was, and the counter of consecutive failures of
  \<open>nosuch\<close> stays at 0 instead of going up by one.
\<close>

theorem unknown_name_is_not_counted:
  "map_of (entries_by_name example_manager) ''nosuch'' = None
   \<and> aliases example_manager ''nosuch'' = None
   \<and> error_counters example_manager ''nosuch'' = 0
   \<and> dispatch (Suc 0) example_world (''pkt'', ToChannel ''nosuch'' (Address 7)) example_manager
     = Some (Return () example_manager)"
  by (simp add: eval_defs)

text \<open>
  Claim C1, amended. A packet dispatched to a name that has no entries in the registry
  (none, or an empty list) and no alias (none, or one without targets) is a no-op that
  raises no exception: the dispatch returns at once and the manager is unchanged, so
  nothing is transmitted or logged and no counter of consecutive failures changes, that
  of the name included.
\<close>

theorem unresolvable_name_returns_early:
  "\<not> truthy (map_of (entries_by_name m) nm) \<Longrightarrow> \<not> truthy (aliases m nm) \<Longrightarrow>
   dispatch (Suc depth) w (msg, ToChannel nm address) m = Some (Return () m)
   \<and> send_message_to_single_channel (Suc depth) w msg (nm, address) m = Some (Return () m)"
  by (simp add: dispatch_def send_message_to_single_channel.simps Let_def)

theorem unresolvable_name_returns_early_witness:
  "\<not> truthy (map_of (entries_by_name example_manager) ''nosuch'')
   \<and> \<not> truthy (aliases example_manager ''nosuch'')
   \<and> dispatch (Suc 0) flaky_world (''pkt'', ToChannel ''nosuch'' (Address 7)) example_manager
       = Some (Return () example_manager)
   \<and> \<not> truthy (aliases (example_manager\<lparr>aliases := [''E'' \<mapsto> []]\<rparr>) ''E'')
   \<and> dispatch (Suc 0) flaky_world (''pkt'', ToChannel ''E'' BROADCAST)
        (example_manager\<lparr>aliases := [''E'' \<mapsto> []]\<rparr>)
       = Some (Return () (example_manager\<lparr>aliases := [''E'' \<mapsto> []]\<rparr>))"
proof -
  let ?n = "example_manager\<lparr>aliases := [''E'' \<mapsto> []]\<rparr>"
  have h1: "\<not> truthy (map_of (entries_by_name example_manager) ''nosuch'')"
    by (simp add: example_manager_def)
  have h2: "\<not> truthy (aliases example_manager ''nosuch'')"
    by (simp add: example_manager_def empty_manager_def init_def)
  have h3: "\<not> truthy (map_of (entries_by_name ?n) ''E'')"
    by (simp add: example_manager_def)
  have h4: "\<not> truthy (aliases ?n ''E'')" by simp
  show ?thesis
    using unresolvable_name_returns_early [OF h1 h2, of 0 flaky_world "''pkt''" "Address 7"]
      unresolvable_name_returns_early [OF h3 h4, of 0 flaky_world "''pkt''" BROADCAST]
      h1 h2 h4
    by blast
qed

subsection \<open>Classification of transmission errors\<close>

text \<open>The record logged for an \<open>OSError\<close>: without stack trace and marked to be ignored by
  the telemetry exactly for the codes of the two groups, each group with its one message,
  and with the stack trace for every other code and for a missing code.\<close>

lemma os_error_buckets:
  "log_os_error_during_tx w errno fa fid m =
     log_call ERROR
       (errno \<notin> Some ` {ENETDOWN w, ENETUNREACH w, EADDRNOTAVAIL w, WSAENETDOWN, WSAENETUNREACH,
                         EHOSTDOWN w, EHOSTUNREACH w, WSAEHOSTDOWN, WSAEHOSTUNREACH})
       ((if fa \<noteq> [] then fa @ '': '' else [])
        @ (if errno \<in> Some ` {ENETDOWN w, ENETUNREACH w, EADDRNOTAVAIL w, WSAENETDOWN, WSAENETUNREACH}
           then ''Network is down or unreachable (''
           else if errno \<in> Some ` {EHOSTDOWN w, EHOSTUNREACH w, WSAEHOSTDOWN, WSAEHOSTUNREACH}
           then ''Host is down or unreachable (''
           else ''Error while sending message ('')
        @ (case errno of None \<Rightarrow> ''code missing''
           | Some n \<Rightarrow> (case errorcode w n of Some s \<Rightarrow> s | None \<Rightarrow> str_int n))
        @ '')'')
       fid
       (errno \<in> Some ` {ENETDOWN w, ENETUNREACH w, EADDRNOTAVAIL w, WSAENETDOWN, WSAENETUNREACH,
                         EHOSTDOWN w, EHOSTUNREACH w, WSAEHOSTDOWN, WSAEHOSTUNREACH})
       m"
  by (auto simp add: log_os_error_during_tx_def Let_def)

text \<open>
  Claim C9, on the code. For a broken channel the classifier, below the limit, logs
  "Channel is broken" without stack trace and then, as for every exception that is not an
  \<open>OSError\<close>, a second record "Error while sending message" with the stack trace, where
  the claim has the broken channel logged without one.
\<close>

theorem broken_channel_logs_stack_trace:
  "handle_tx_error example_world (BrokenResourceError []) (Address 7) 0 (entry_A0, example_manager)
     = Return ()
         (entry_A0\<lparr>error_count := 1\<rparr>,
          example_manager\<lparr>logged :=
            [\<lparr>level = ERROR, message = ''Channel is broken'', extra_id = ''A[0]'',
              telemetry_ignore = False, exc_info = False\<rparr>,
             \<lparr>level = ERROR, message = ''Error while sending message'', extra_id = ''A[0]'',
              telemetry_ignore = False, exc_info = True\<rparr>]\<rparr>)"
  by (simp add: eval_defs)

end
